theory Spec2Isabelle
  imports Complex_Main "HOL-Library.Sublist"
begin

section \<open>Python values and the operations the loader applies to them\<close>

text \<open>
  The loader (\<^verbatim>\<open>etl_load_phonepe.py\<close>) works on what \<^verbatim>\<open>json.load\<close> returns: \<^verbatim>\<open>None\<close>,
  booleans, unbounded integers, floats, strings, lists and dicts. A dict is an association
  list in insertion order (the keys of a loaded dict are distinct; lookups take the first
  binding). Strings are lists of 8-bit characters, read as the code points U+0000..U+00FF.

  Floats are kept abstract: the type \<open>'f\<close> of float values and the operations of the
  interpreter on them are a parameter (\<open>'f py_ops\<close>), so that nothing below depends on how
  IEEE doubles round. The same record holds the two string conversions \<^verbatim>\<open>int(s)\<close> and
  \<^verbatim>\<open>float(s)\<close>, whose grammars are the interpreter's.
\<close>

datatype py_error =
  AttributeError | TypeError | ValueError | OverflowError | IndexError | ReadError | SinkError

datatype 'f json =
  JNull
  | JBool bool
  | JInt int
  | JFloat 'f
  | JStr string
  | JList "'f json list"
  | JDict "(string \<times> 'f json) list"

record 'f py_ops =
  f_nonzero :: "'f \<Rightarrow> bool"
  f_of_int :: "int \<Rightarrow> 'f"
  f_to_int :: "'f \<Rightarrow> py_error + int"
  f_sum :: "'f list \<Rightarrow> 'f"
  s_to_int :: "string \<Rightarrow> py_error + int"
  s_to_float :: "string \<Rightarrow> py_error + 'f"

type_synonym 'f row = "(string \<times> 'f json) list"

text \<open>Sequencing of steps that may raise: the first exception ends the computation.\<close>

definition bindE :: "'e + 'a \<Rightarrow> ('a \<Rightarrow> 'e + 'b) \<Rightarrow> 'e + 'b" where
  "bindE m f = (case m of Inl e \<Rightarrow> Inl e | Inr v \<Rightarrow> f v)"

fun mapE :: "('a \<Rightarrow> 'e + 'b) \<Rightarrow> 'a list \<Rightarrow> 'e + 'b list" where
  "mapE f [] = Inr []"
| "mapE f (x # xs) = bindE (f x) (\<lambda>y. bindE (mapE f xs) (\<lambda>ys. Inr (y # ys)))"

text \<open>\<^verbatim>\<open>bool(v)\<close>, and \<^verbatim>\<open>a or b\<close> once both operands are evaluated.\<close>

fun truthy :: "'f py_ops \<Rightarrow> 'f json \<Rightarrow> bool" where
  "truthy F JNull = False"
| "truthy F (JBool b) = b"
| "truthy F (JInt n) = (n \<noteq> 0)"
| "truthy F (JFloat x) = f_nonzero F x"
| "truthy F (JStr s) = (s \<noteq> [])"
| "truthy F (JList xs) = (xs \<noteq> [])"
| "truthy F (JDict kvs) = (kvs \<noteq> [])"

definition py_or :: "'f py_ops \<Rightarrow> 'f json \<Rightarrow> 'f json \<Rightarrow> 'f json" where
  "py_or F a b = (if truthy F a then a else b)"

text \<open>\<^verbatim>\<open>d.get(k)\<close>: only a dict has the method; a missing key gives \<^verbatim>\<open>None\<close>.\<close>

fun py_get :: "'f json \<Rightarrow> string \<Rightarrow> py_error + 'f json" where
  "py_get (JDict kvs) k = Inr (case map_of kvs k of None \<Rightarrow> JNull | Some v \<Rightarrow> v)"
| "py_get _ k = Inl AttributeError"

text \<open>\<^verbatim>\<open>d.get(k, dflt)\<close>: the default stands in for a missing key only.\<close>

fun py_get_default :: "'f json \<Rightarrow> string \<Rightarrow> 'f json \<Rightarrow> py_error + 'f json" where
  "py_get_default (JDict kvs) k dflt = Inr (case map_of kvs k of None \<Rightarrow> dflt | Some v \<Rightarrow> v)"
| "py_get_default _ k dflt = Inl AttributeError"

text \<open>
  \<^verbatim>\<open>d.get(k1) or d.get(k2) or ... or dflt\<close>, evaluated left to right and stopping at the
  first truthy value.
\<close>

fun get_or :: "'f py_ops \<Rightarrow> 'f json \<Rightarrow> string list \<Rightarrow> 'f json \<Rightarrow> py_error + 'f json" where
  "get_or F d [] dflt = Inr dflt"
| "get_or F d (k # ks) dflt =
     bindE (py_get d k) (\<lambda>v. if truthy F v then Inr v else get_or F d ks dflt)"

text \<open>
  \<^verbatim>\<open>for x in v\<close>: a list gives its elements, a dict its keys, a string its characters;
  nothing else can be iterated.
\<close>

fun py_iter :: "'f json \<Rightarrow> py_error + 'f json list" where
  "py_iter (JList xs) = Inr xs"
| "py_iter (JDict kvs) = Inr (map (\<lambda>kv. JStr (fst kv)) kvs)"
| "py_iter (JStr s) = Inr (map (\<lambda>c. JStr [c]) s)"
| "py_iter _ = Inl TypeError"

text \<open>
  \<^verbatim>\<open>int(v)\<close> and \<^verbatim>\<open>float(v)\<close>. An integer converts to a float unless it rounds beyond the
  largest double, which is at \<open>2^1024 - 2^970\<close> in absolute value.
\<close>

definition float_int_limit :: int where
  "float_int_limit = 2 ^ 1024 - 2 ^ 970"

fun py_int :: "'f py_ops \<Rightarrow> 'f json \<Rightarrow> py_error + int" where
  "py_int F (JInt n) = Inr n"
| "py_int F (JBool b) = Inr (if b then 1 else 0)"
| "py_int F (JFloat x) = f_to_int F x"
| "py_int F (JStr s) = s_to_int F s"
| "py_int F _ = Inl TypeError"

definition float_of_int :: "'f py_ops \<Rightarrow> int \<Rightarrow> py_error + 'f" where
  "float_of_int F n = (if \<bar>n\<bar> < float_int_limit then Inr (f_of_int F n) else Inl OverflowError)"

fun py_float :: "'f py_ops \<Rightarrow> 'f json \<Rightarrow> py_error + 'f" where
  "py_float F (JFloat x) = Inr x"
| "py_float F (JInt n) = float_of_int F n"
| "py_float F (JBool b) = float_of_int F (if b then 1 else 0)"
| "py_float F (JStr s) = s_to_float F s"
| "py_float F _ = Inl TypeError"

text \<open>\<^verbatim>\<open>v not in (None, "")\<close>.\<close>

definition not_none_or_empty :: "'f json \<Rightarrow> bool" where
  "not_none_or_empty v = (v \<noteq> JNull \<and> v \<noteq> JStr [])"

text \<open>\<^verbatim>\<open>safe_get(d, *keys)\<close>.\<close>

fun safe_get :: "'f json \<Rightarrow> string list \<Rightarrow> 'f json" where
  "safe_get cur [] = cur"
| "safe_get cur (k # ks) =
     (case cur of
        JDict kvs \<Rightarrow>
          (case map_of kvs k of
             None \<Rightarrow> JNull
           | Some v \<Rightarrow> if v = JNull then JNull else safe_get v ks)
      | _ \<Rightarrow> JNull)"

text \<open>The six columns every row starts with, in the order of the dict literals.\<close>

definition header ::
  "'f json \<Rightarrow> 'f json \<Rightarrow> 'f json \<Rightarrow> 'f json \<Rightarrow> 'f json \<Rightarrow> 'f json \<Rightarrow> 'f row" where
  "header source country state district year quarter =
     [(''source_path'', source), (''country'', country), (''state'', state),
      (''district'', district), (''year'', year), (''quarter'', quarter)]"

section \<open>Aggregated extractors\<close>

text \<open>
  \<^verbatim>\<open>parse_aggregated_transaction\<close>. The inner loop looks for the first instrument whose
  type is \<^verbatim>\<open>"TOTAL"\<close> and leaves \<^verbatim>\<open>(total_count, total_amount)\<close>, both \<^verbatim>\<open>None\<close> when the loop
  ends without a \<^verbatim>\<open>break\<close>.
\<close>

fun find_total :: "'f json list \<Rightarrow> py_error + ('f json \<times> 'f json)" where
  "find_total [] = Inr (JNull, JNull)"
| "find_total (inst # insts) =
     bindE (py_get inst ''type'') (\<lambda>t.
       if t = JStr ''TOTAL''
       then bindE (py_get inst ''count'') (\<lambda>c.
            bindE (py_get inst ''amount'') (\<lambda>a. Inr (c, a)))
       else find_total insts)"

text \<open>
  The two fallback sums, each inside its own \<^verbatim>\<open>try\<close>: any exception leaves \<^verbatim>\<open>None\<close>.
  \<^verbatim>\<open>sum\<close> starts from the integer 0, so the sum of no floats is the integer 0.
\<close>

definition sum_counts :: "'f py_ops \<Rightarrow> 'f json list \<Rightarrow> 'f json" where
  "sum_counts F insts =
     (case mapE (\<lambda>i. bindE (get_or F i [''count''] (JInt 0)) (py_int F)) insts of
        Inl e \<Rightarrow> JNull
      | Inr ns \<Rightarrow> JInt (sum_list ns))"

definition sum_amounts :: "'f py_ops \<Rightarrow> 'f json list \<Rightarrow> 'f json" where
  "sum_amounts F insts =
     (case mapE (\<lambda>i. bindE (get_or F i [''amount''] (JInt 0)) (py_float F)) insts of
        Inl e \<Rightarrow> JNull
      | Inr xs \<Rightarrow> if xs = [] then JInt 0 else JFloat (f_sum F xs))"

definition int_or_none :: "'f py_ops \<Rightarrow> 'f json \<Rightarrow> py_error + 'f json" where
  "int_or_none F v =
     (if not_none_or_empty v then bindE (py_int F v) (\<lambda>n. Inr (JInt n)) else Inr JNull)"

definition float_or_none :: "'f py_ops \<Rightarrow> 'f json \<Rightarrow> py_error + 'f json" where
  "float_or_none F v =
     (if not_none_or_empty v then bindE (py_float F v) (\<lambda>x. Inr (JFloat x)) else Inr JNull)"

definition aggregated_transaction_row ::
  "'f py_ops \<Rightarrow> 'f row \<Rightarrow> 'f json \<Rightarrow> py_error + 'f row" where
  "aggregated_transaction_row F hdr rec =
     bindE (py_get rec ''name'') (\<lambda>ttype.
     bindE (py_get_default rec ''paymentInstruments'' (JList [])) (\<lambda>instruments.
     bindE (py_iter instruments) (\<lambda>insts.
     bindE (find_total insts) (\<lambda>(tc, ta).
       let total_count = (if tc = JNull then sum_counts F insts else tc);
           total_amount = (if ta = JNull then sum_amounts F insts else ta)
       in bindE (int_or_none F total_count) (\<lambda>cnt.
          bindE (float_or_none F total_amount) (\<lambda>amt.
            Inr (hdr @ [(''transaction_type'', ttype),
                        (''transaction_count'', cnt),
                        (''transaction_amount'', amt)])))))))"

definition parse_aggregated_transaction ::
  "'f py_ops \<Rightarrow> 'f json \<Rightarrow> 'f json \<Rightarrow> 'f json \<Rightarrow> 'f json \<Rightarrow> 'f json \<Rightarrow> 'f json \<Rightarrow> 'f json
     \<Rightarrow> py_error + 'f row list" where
  "parse_aggregated_transaction F j country state district year quarter source =
     bindE (py_iter (py_or F (safe_get j [''data'', ''transactionData'']) (JList []))) (\<lambda>tdata.
       mapE (aggregated_transaction_row F
               (header source country state district year quarter)) tdata)"

text \<open>
  \<^verbatim>\<open>d.get(k1) or ... or d.get(kn)\<close> with no final default: the value of the last lookup
  stands when none before it is truthy.
\<close>

fun get_or_last :: "'f py_ops \<Rightarrow> 'f json \<Rightarrow> string list \<Rightarrow> py_error + 'f json" where
  "get_or_last F d [] = Inr JNull"
| "get_or_last F d [k] = py_get d k"
| "get_or_last F d (k # ks) =
     bindE (py_get d k) (\<lambda>v. if truthy F v then Inr v else get_or_last F d ks)"

definition int_of :: "'f py_ops \<Rightarrow> 'f json \<Rightarrow> string list \<Rightarrow> py_error + 'f json" where
  "int_of F d ks = bindE (get_or F d ks (JInt 0)) (\<lambda>v. bindE (py_int F v) (\<lambda>n. Inr (JInt n)))"

definition float_of :: "'f py_ops \<Rightarrow> 'f json \<Rightarrow> string list \<Rightarrow> py_error + 'f json" where
  "float_of F d ks =
     bindE (get_or F d ks (JFloat (f_of_int F 0))) (\<lambda>v.
     bindE (py_float F v) (\<lambda>x. Inr (JFloat x)))"

definition has_key :: "'f json \<Rightarrow> string \<Rightarrow> bool" where
  "has_key d k = (case d of JDict kvs \<Rightarrow> map_of kvs k \<noteq> None | _ \<Rightarrow> False)"

definition is_dict :: "'f json \<Rightarrow> bool" where
  "is_dict v = (case v of JDict kvs \<Rightarrow> True | _ \<Rightarrow> False)"

text \<open>
  \<^verbatim>\<open>parse_aggregated_user\<close>: the loop over the device records carries the two running
  totals.
\<close>

fun sum_devices :: "'f py_ops \<Rightarrow> int \<times> int \<Rightarrow> 'f json list \<Rightarrow> py_error + int \<times> int" where
  "sum_devices F (total_registered, total_app_opens) [] =
     Inr (total_registered, total_app_opens)"
| "sum_devices F (total_registered, total_app_opens) (rec # recs) =
     bindE (get_or F rec [''registeredUsers'', ''count''] (JInt 0)) (\<lambda>v.
     bindE (py_int F v) (\<lambda>r.
     bindE (get_or F rec [''appOpens'', ''appOpensCount''] (JInt 0)) (\<lambda>w.
     bindE (py_int F w) (\<lambda>a.
       sum_devices F (total_registered + r, total_app_opens + a) recs))))"

definition parse_aggregated_user ::
  "'f py_ops \<Rightarrow> 'f json \<Rightarrow> 'f json \<Rightarrow> 'f json \<Rightarrow> 'f json \<Rightarrow> 'f json \<Rightarrow> 'f json \<Rightarrow> 'f json
     \<Rightarrow> py_error + 'f row list" where
  "parse_aggregated_user F j country state district year quarter source =
     (let data = py_or F (safe_get j [''data'']) (JDict []);
          hdr = header source country state district year quarter
      in if is_dict data \<and>
            (has_key data ''registeredUsers'' \<or> has_key data ''appOpens''
               \<or> has_key data ''activeUsers'')
         then
           bindE (int_of F data [''registeredUsers'']) (\<lambda>reg.
           bindE (int_of F data [''appOpens'']) (\<lambda>opens.
           bindE (py_get data ''activeUsers'') (\<lambda>au.
           bindE (if au \<noteq> JNull then int_of F data [''activeUsers''] else Inr JNull) (\<lambda>active.
             Inr [hdr @ [(''registered_users'', reg), (''app_opens'', opens),
                         (''active_users'', active)]]))))
         else
           (case (if is_dict data then py_get data ''usersByDevice'' else Inr JNull) of
              Inl e \<Rightarrow> Inl e
            | Inr (JList users_by_device) \<Rightarrow>
                if users_by_device \<noteq> [] then
                  bindE (sum_devices F (0, 0) users_by_device)
                    (\<lambda>(total_registered, total_app_opens).
                       Inr [hdr @ [(''registered_users'', JInt total_registered),
                                   (''app_opens'', JInt total_app_opens),
                                   (''active_users'', JNull)]])
                else Inr []
            | Inr _ \<Rightarrow> Inr []))"

text \<open>\<^verbatim>\<open>parse_aggregated_insurance\<close>.\<close>

definition aggregated_insurance_row ::
  "'f py_ops \<Rightarrow> 'f row \<Rightarrow> 'f json \<Rightarrow> py_error + 'f row" where
  "aggregated_insurance_row F hdr rec =
     bindE (get_or_last F rec [''name'', ''insuranceType'']) (\<lambda>ity.
     bindE (int_of F rec [''count'', ''policies'']) (\<lambda>pol.
     bindE (float_of F rec [''amount'', ''premium'']) (\<lambda>prem.
       Inr (hdr @ [(''insurance_type'', ity), (''total_policies'', pol),
                   (''total_premium'', prem)]))))"

definition parse_aggregated_insurance ::
  "'f py_ops \<Rightarrow> 'f json \<Rightarrow> 'f json \<Rightarrow> 'f json \<Rightarrow> 'f json \<Rightarrow> 'f json \<Rightarrow> 'f json \<Rightarrow> 'f json
     \<Rightarrow> py_error + 'f row list" where
  "parse_aggregated_insurance F j country state district year quarter source =
     (let ins_list0 = py_or F (py_or F (safe_get j [''data'', ''insurance''])
                                      (safe_get j [''data'', ''insuranceData''])) (JList []);
          ins_list = (if is_dict ins_list0 then JList [ins_list0] else ins_list0)
      in bindE (py_iter ins_list) (\<lambda>recs.
           mapE (aggregated_insurance_row F
                   (header source country state district year quarter)) recs))"

section \<open>Map extractors\<close>

text \<open>
  \<^verbatim>\<open>parse_map_json\<close>. Each of the three kinds collects candidate containers from the
  \<^verbatim>\<open>data\<close> payload and turns their entries into rows; an entry that is not a dict is
  skipped.
\<close>

definition concat_mapE :: "('a \<Rightarrow> 'e + 'b list) \<Rightarrow> 'a list \<Rightarrow> 'e + 'b list" where
  "concat_mapE f xs = bindE (mapE f xs) (\<lambda>yss. Inr (concat yss))"

definition tx_candidates :: "'f json \<Rightarrow> 'f json list list" where
  "tx_candidates data =
     (case data of
        JDict kvs \<Rightarrow>
          concat (map (\<lambda>k. case map_of kvs k of Some (JList xs) \<Rightarrow> [xs] | _ \<Rightarrow> [])
                      [''hoverDataList'', ''data'', ''hoverData'', ''states''])
      | JList xs \<Rightarrow> [xs]
      | _ \<Rightarrow> [])"

definition map_transaction_item ::
  "'f py_ops \<Rightarrow> 'f json \<Rightarrow> 'f json \<Rightarrow> 'f json \<Rightarrow> 'f json \<Rightarrow> 'f json \<Rightarrow> 'f json
     \<Rightarrow> py_error + 'f row list" where
  "map_transaction_item F country state year quarter source item =
     (if \<not> is_dict item then Inr []
      else
        bindE (get_or F item [''name'', ''district'', ''state''] (JStr ''Unknown'')) (\<lambda>name.
        bindE (get_or F item [''metric'', ''values'', ''value''] (JDict [])) (\<lambda>metric.
        bindE (if is_dict metric then int_of F metric [''count'', ''totalCount'']
               else Inr JNull) (\<lambda>total_count.
        bindE (if is_dict metric then float_of F metric [''amount'', ''totalAmount'']
               else Inr JNull) (\<lambda>total_amount.
          Inr [header source country state name year quarter @
               [(''total_tx_count'', total_count), (''total_tx_amount'', total_amount)]])))))"

definition map_user_item ::
  "'f py_ops \<Rightarrow> 'f json \<Rightarrow> 'f json \<Rightarrow> 'f json \<Rightarrow> 'f json \<Rightarrow> 'f json \<Rightarrow> string \<times> 'f json
     \<Rightarrow> py_error + 'f row list" where
  "map_user_item F country state year quarter source kv =
     (case kv of (name, metric) \<Rightarrow>
        if \<not> is_dict metric then Inr []
        else
          bindE (int_of F metric [''registeredUsers'', ''registered'']) (\<lambda>registered.
          bindE (int_of F metric [''appOpens'', ''appOpensCount'']) (\<lambda>opens.
            Inr [header source country state (JStr name) year quarter @
                 [(''registered_users'', registered), (''app_opens'', opens)]])))"

definition map_insurance_row ::
  "'f py_ops \<Rightarrow> 'f json \<Rightarrow> 'f json \<Rightarrow> 'f json \<Rightarrow> 'f json \<Rightarrow> 'f json \<Rightarrow> 'f json \<Rightarrow> 'f json
     \<Rightarrow> py_error + 'f row list" where
  "map_insurance_row F country state year quarter source name metric =
     bindE (int_of F metric [''count'', ''policies'']) (\<lambda>policies.
     bindE (float_of F metric [''amount'', ''premium'']) (\<lambda>premium.
       Inr [header source country state name year quarter @
            [(''total_policies'', policies), (''total_premium'', premium)]]))"

definition map_insurance_item ::
  "'f py_ops \<Rightarrow> 'f json \<Rightarrow> 'f json \<Rightarrow> 'f json \<Rightarrow> 'f json \<Rightarrow> 'f json \<Rightarrow> 'f json
     \<Rightarrow> py_error + 'f row list" where
  "map_insurance_item F country state year quarter source item =
     (if \<not> is_dict item then Inr []
      else
        bindE (get_or F item [''name'', ''district''] (JStr ''Unknown'')) (\<lambda>name.
          map_insurance_row F country state year quarter source name item))"

definition map_insurance_cand ::
  "'f py_ops \<Rightarrow> 'f json \<Rightarrow> 'f json \<Rightarrow> 'f json \<Rightarrow> 'f json \<Rightarrow> 'f json \<Rightarrow> 'f json
     \<Rightarrow> py_error + 'f row list" where
  "map_insurance_cand F country state year quarter source cand =
     (case cand of
        JList items \<Rightarrow>
          concat_mapE (map_insurance_item F country state year quarter source) items
      | JDict kvs \<Rightarrow>
          concat_mapE (\<lambda>kv. case kv of (name, metric) \<Rightarrow>
                         if \<not> is_dict metric then Inr []
                         else map_insurance_row F country state year quarter source
                                (JStr name) metric) kvs
      | _ \<Rightarrow> Inr [])"

definition insurance_candidates :: "'f json \<Rightarrow> 'f json list" where
  "insurance_candidates data =
     (case data of
        JDict kvs \<Rightarrow>
          concat (map (\<lambda>k. case map_of kvs k of Some v \<Rightarrow> [v] | None \<Rightarrow> [])
                      [''hoverDataList'', ''insurance'', ''data''])
      | _ \<Rightarrow> [])"

definition parse_map_json ::
  "'f py_ops \<Rightarrow> 'f json \<Rightarrow> string \<Rightarrow> 'f json \<Rightarrow> 'f json \<Rightarrow> 'f json \<Rightarrow> 'f json \<Rightarrow> 'f json
     \<Rightarrow> py_error + 'f row list" where
  "parse_map_json F j kind country state year quarter source =
     (let data = py_or F (safe_get j [''data'']) (JDict [])
      in if kind = ''transaction'' then
           concat_mapE
             (concat_mapE (map_transaction_item F country state year quarter source))
             (tx_candidates data)
         else if kind = ''user'' then
           bindE (py_get data ''hoverData'') (\<lambda>h0.
             case py_or F h0 (JDict []) of
               JDict kvs \<Rightarrow> concat_mapE (map_user_item F country state year quarter source) kvs
             | _ \<Rightarrow> Inr [])
         else if kind = ''insurance'' then
           concat_mapE (map_insurance_cand F country state year quarter source)
             (insurance_candidates data)
         else Inr [])"

section \<open>Top extractors\<close>

text \<open>
  \<^verbatim>\<open>parse_top_json\<close>. The nested helper \<^verbatim>\<open>find_lists\<close> walks the dicts of the payload depth
  first and collects every list-valued field.
\<close>

fun find_lists :: "'f json \<Rightarrow> 'f json list list"
  and find_lists_items :: "(string \<times> 'f json) list \<Rightarrow> 'f json list list" where
  "find_lists (JDict kvs) = find_lists_items kvs"
| "find_lists JNull = []"
| "find_lists (JBool b) = []"
| "find_lists (JInt n) = []"
| "find_lists (JFloat x) = []"
| "find_lists (JStr s) = []"
| "find_lists (JList xs) = []"
| "find_lists_items [] = []"
| "find_lists_items (kv # kvs) =
     (case snd kv of
        JList xs \<Rightarrow> [xs]
      | JDict d \<Rightarrow> find_lists (JDict d)
      | _ \<Rightarrow> []) @ find_lists_items kvs"

definition top_item ::
  "'f py_ops \<Rightarrow> string \<Rightarrow> 'f json \<Rightarrow> 'f json \<Rightarrow> 'f json \<Rightarrow> 'f json \<Rightarrow> 'f json \<Rightarrow> 'f json
     \<Rightarrow> py_error + 'f row list" where
  "top_item F kind country state year quarter source item =
     (if \<not> is_dict item then Inr []
      else
        bindE (get_or_last F item [''name'', ''district'', ''state'']) (\<lambda>name.
        bindE (get_or_last F item [''pincode'', ''pin'']) (\<lambda>pincode.
        bindE (int_of F item [''rank'', ''position'']) (\<lambda>rank.
          let hdr = header source country state name year quarter @
                    [(''pin_code'', pincode), (''rank'', rank)]
          in if kind = ''user'' then
               bindE (int_of F item [''registeredUsers'', ''count'']) (\<lambda>reg.
               bindE (int_of F item [''appOpens'']) (\<lambda>opens.
                 Inr [hdr @ [(''registered_users'', reg), (''app_opens'', opens)]]))
             else if kind = ''transaction'' then
               bindE (int_of F item [''count'', ''transactions'']) (\<lambda>tx_count.
               bindE (float_of F item [''amount'', ''value'']) (\<lambda>tx_amount.
                 Inr [hdr @ [(''total_tx_count'', tx_count), (''total_tx_amount'', tx_amount)]]))
             else if kind = ''insurance'' then
               bindE (int_of F item [''count'', ''policies'']) (\<lambda>pol.
               bindE (float_of F item [''amount'', ''premium'']) (\<lambda>prem.
                 Inr [hdr @ [(''total_policies'', pol), (''total_premium'', prem)]]))
             else Inr []))))"

definition parse_top_json ::
  "'f py_ops \<Rightarrow> 'f json \<Rightarrow> string \<Rightarrow> 'f json \<Rightarrow> 'f json \<Rightarrow> 'f json \<Rightarrow> 'f json \<Rightarrow> 'f json
     \<Rightarrow> py_error + 'f row list" where
  "parse_top_json F j kind country state year quarter source =
     (let data = py_or F (safe_get j [''data'']) (JDict []);
          lists0 = find_lists data;
          lists = (case data of JList xs \<Rightarrow> if lists0 = [] then [xs] else lists0 | _ \<Rightarrow> lists0)
      in concat_mapE (concat_mapE (top_item F kind country state year quarter source)) lists)"

section \<open>Path context\<close>

text \<open>
  \<^verbatim>\<open>Path(path_str).parts\<close> as the POSIX flavour of \<^verbatim>\<open>pathlib\<close> computes it: the string is cut
  at every slash, empty segments and single dots are dropped, and a leading slash (or exactly
  two) is a part of its own.
\<close>

fun split_on :: "char \<Rightarrow> string \<Rightarrow> string list" where
  "split_on c [] = [[]]"
| "split_on c (x # xs) =
     (if x = c then [] # split_on c xs
      else (case split_on c xs of
              w # ws \<Rightarrow> (x # w) # ws
            | [] \<Rightarrow> [[x]]))"

definition path_root :: "string \<Rightarrow> string" where
  "path_root p =
     (if take 2 p = ''//'' \<and> take 3 p \<noteq> ''///'' then ''//''
      else if take 1 p = ''/'' then ''/''
      else [])"

definition path_parts :: "string \<Rightarrow> string list" where
  "path_parts p =
     (if path_root p = [] then [] else [path_root p]) @
     filter (\<lambda>s. s \<noteq> [] \<and> s \<noteq> ''.'') (split_on CHR ''/'' p)"

text \<open>
  \<^verbatim>\<open>Path(name).stem\<close> of a single segment: the name up to its last dot, when that dot is
  neither the first nor the last character.
\<close>

fun rfind_dot :: "string \<Rightarrow> nat option" where
  "rfind_dot [] = None"
| "rfind_dot (c # cs) =
     (case rfind_dot cs of
        Some i \<Rightarrow> Some (Suc i)
      | None \<Rightarrow> if c = CHR ''.'' then Some 0 else None)"

definition path_stem :: "string \<Rightarrow> string" where
  "path_stem name =
     (case rfind_dot name of
        Some i \<Rightarrow> if 0 < i \<and> i < length name - 1 then take i name else name
      | None \<Rightarrow> name)"

text \<open>
  \<^verbatim>\<open>str.isdigit\<close> accepts, among the code points up to U+00FF, the ten decimal digits and
  the superscripts two, three and one.
\<close>

definition is_ascii_digit :: "char \<Rightarrow> bool" where
  "is_ascii_digit c = (48 \<le> (of_char c :: nat) \<and> (of_char c :: nat) \<le> 57)"

definition isdigit :: "string \<Rightarrow> bool" where
  "isdigit s =
     (s \<noteq> [] \<and> list_all (\<lambda>c. is_ascii_digit c \<or> c = CHR 0xB2 \<or> c = CHR 0xB3 \<or> c = CHR 0xB9) s)"

text \<open>
  \<^verbatim>\<open>int(s)\<close> on a string, in base 10: white space around the numeral is dropped (among the
  code points up to U+00FF: tab, line feed, vertical tab, form feed, carriage return,
  space, U+0085 and U+00A0), one sign may come first, and the numeral is decimal digits,
  between which single underscores may stand. A numeral of more than 4300 digits is
  refused (the interpreter's default bound), as is anything else: \<^verbatim>\<open>ValueError\<close>.
\<close>

definition is_space :: "char \<Rightarrow> bool" where
  "is_space c = ((of_char c :: nat) \<in> {9, 10, 11, 12, 13, 32, 133, 160})"

definition strip :: "string \<Rightarrow> string" where
  "strip s = rev (dropWhile is_space (rev (dropWhile is_space s)))"

fun digits_after :: "string \<Rightarrow> string option" where
  "digits_after [] = Some []"
| "digits_after [c] = (if is_ascii_digit c then Some [c] else None)"
| "digits_after (c # d # ds) =
     (if is_ascii_digit c then map_option ((#) c) (digits_after (d # ds))
      else if c = CHR ''_'' \<and> is_ascii_digit d then digits_after (d # ds)
      else None)"

definition numeral_digits :: "string \<Rightarrow> string option" where
  "numeral_digits s =
     (case s of
        [] \<Rightarrow> None
      | c # cs \<Rightarrow> if is_ascii_digit c then digits_after s else None)"

definition digits_value :: "string \<Rightarrow> int" where
  "digits_value s = foldl (\<lambda>a c. 10 * a + (int (of_char c) - 48)) 0 s"

definition max_str_digits :: nat where
  "max_str_digits = 4300"

definition int_of_str :: "string \<Rightarrow> py_error + int" where
  "int_of_str s =
     (let t = strip s;
          negative = (take 1 t = ''-'');
          body = (if take 1 t = ''-'' \<or> take 1 t = ''+'' then drop 1 t else t)
      in case numeral_digits body of
           None \<Rightarrow> Inl ValueError
         | Some ds \<Rightarrow>
             if length ds > max_str_digits then Inl ValueError
             else Inr (if negative then - digits_value ds else digits_value ds))"

text \<open>\<^verbatim>\<open>xs.index(x)\<close>, \<^verbatim>\<open>xs[i]\<close> with Python's negative indices, and \<^verbatim>\<open>s.replace(old, new)\<close>.\<close>

fun index_of :: "'a \<Rightarrow> 'a list \<Rightarrow> py_error + nat" where
  "index_of x [] = Inl ValueError"
| "index_of x (y # ys) =
     (if x = y then Inr 0 else bindE (index_of x ys) (\<lambda>i. Inr (Suc i)))"

definition py_index :: "'a list \<Rightarrow> int \<Rightarrow> py_error + 'a" where
  "py_index xs i =
     (let n = int (length xs); k = (if i < 0 then n + i else i)
      in if 0 \<le> k \<and> k < n then Inr (xs ! nat k) else Inl IndexError)"

function replace :: "string \<Rightarrow> string \<Rightarrow> string \<Rightarrow> string" where
  "replace old new s =
     (if old = [] \<or> s = [] then s
      else if prefix old s then new @ replace old new (drop (length old) s)
      else hd s # replace old new (tl s))"
  by pat_completeness auto
termination
  by (relation "measure (\<lambda>(old, new, s). length s)") auto

text \<open>
  \<^verbatim>\<open>try: ... except Exception: pass\<close> over a sequence of statements on the local
  variables: the statements run in order, and the first that raises ends the block with the
  variables as they were before it.
\<close>

type_synonym path_vars = "string option \<times> string option \<times> int option \<times> int option"

fun run_try :: "('s \<Rightarrow> py_error + 's) list \<Rightarrow> 's \<Rightarrow> 's" where
  "run_try [] s = s"
| "run_try (stmt # stmts) s =
     (case stmt s of Inl e \<Rightarrow> s | Inr s' \<Rightarrow> run_try stmts s')"

text \<open>The statements of the blocks, on \<open>(country, state, year, quarter)\<close>.\<close>

definition set_country :: "string list \<Rightarrow> path_vars \<Rightarrow> py_error + path_vars" where
  "set_country tail v =
     (case v of (country, state, year, quarter) \<Rightarrow>
        bindE (index_of ''country'' tail) (\<lambda>ci.
        bindE (py_index tail (int ci + 1)) (\<lambda>c. Inr (Some c, state, year, quarter))))"

definition set_state :: "string \<Rightarrow> string list \<Rightarrow> path_vars \<Rightarrow> py_error + path_vars" where
  "set_state marker tail v =
     (case v of (country, state, year, quarter) \<Rightarrow>
        bindE (index_of marker tail) (\<lambda>si.
        bindE (py_index tail (int si + 1)) (\<lambda>s. Inr (country, Some s, year, quarter))))"

definition set_year :: "string list \<Rightarrow> path_vars \<Rightarrow> py_error + path_vars" where
  "set_year tail v =
     (case v of (country, state, year, quarter) \<Rightarrow>
        bindE (py_index tail (- 2)) (\<lambda>seg.
          if isdigit seg
          then bindE (int_of_str seg) (\<lambda>n. Inr (country, state, Some n, quarter))
          else Inr v))"

definition set_quarter :: "string list \<Rightarrow> path_vars \<Rightarrow> py_error + path_vars" where
  "set_quarter tail v =
     (case v of (country, state, year, quarter) \<Rightarrow>
        bindE (py_index tail (- 1)) (\<lambda>name.
          let q = path_stem name
          in if isdigit q
             then bindE (int_of_str q) (\<lambda>n. Inr (country, state, year, Some n))
             else Inr v))"

text \<open>
  The segments after the first \<^verbatim>\<open>data\<close> segment; without one, \<^verbatim>\<open>idx = 0\<close> stands in. The
  handler catches \<^verbatim>\<open>ValueError\<close> only.
\<close>

definition tail_of_parts :: "string list \<Rightarrow> py_error + string list" where
  "tail_of_parts parts =
     bindE (case index_of ''data'' parts of
              Inr i \<Rightarrow> Inr i
            | Inl e \<Rightarrow> if e = ValueError then Inr 0 else Inl e)
       (\<lambda>idx. Inr (drop (idx + 1) parts))"

text \<open>
  \<^verbatim>\<open>parse_path_context\<close> on the parts of the path. What stands outside the \<^verbatim>\<open>try\<close> blocks
  may raise in the model as it may in the source.
\<close>

definition context_of_parts ::
  "string list
     \<Rightarrow> py_error + (string option \<times> string option \<times> string option \<times> int option \<times> int option)" where
  "context_of_parts parts =
     bindE (tail_of_parts parts) (\<lambda>tail.
       let v0 = (None, None, None, None)
       in bindE
            (if length tail \<ge> 4 then
               bindE (py_index tail 0) (\<lambda>t0.
                 if t0 = ''aggregated'' then
                   (let v1 = (if ''country'' \<in> set tail
                              then run_try [set_country tail, set_year tail, set_quarter tail] v0
                              else v0);
                        v2 = (if ''state'' \<in> set tail
                              then run_try [set_state ''state'' tail, set_year tail,
                                            set_quarter tail] v1
                              else v1)
                    in Inr v2)
                 else
                   (let v1 = (if ''country'' \<in> set tail \<and> ''india'' \<in> set tail
                              then run_try [set_year tail, set_quarter tail] v0
                              else v0);
                        v2 = (if ''state-wise'' \<in> set tail
                              then run_try [set_state ''state-wise'' tail] v1
                              else v1)
                    in Inr v2))
             else Inr v0)
            (\<lambda>(country, state, year, quarter).
               Inr (country, map_option (replace ''%20'' '' '') state, None, year, quarter)))"

definition parse_path_context ::
  "string
     \<Rightarrow> py_error + (string option \<times> string option \<times> string option \<times> int option \<times> int option)" where
  "parse_path_context path_str = context_of_parts (path_parts path_str)"

section \<open>Loading\<close>

text \<open>
  \<^verbatim>\<open>process_and_load\<close> meets the world in three places, which are parameters of the model:
  what \<^verbatim>\<open>open\<close> and \<^verbatim>\<open>json.load\<close> give for a path under each of the two encodings, and
  whether \<^verbatim>\<open>to_sql\<close> raises for a batch (given what the sink has taken so far). The state of
  a run is the running total and the batches handed to the sink, in order.
\<close>

record 'f world =
  read_utf8 :: "string \<Rightarrow> py_error + 'f json"
  read_latin1 :: "string \<Rightarrow> py_error + 'f json"
  sink_raises :: "(string \<times> 'f row list) list \<Rightarrow> string \<Rightarrow> 'f row list \<Rightarrow> bool"

type_synonym 'f run_state = "int \<times> (string \<times> 'f row list) list"

text \<open>
  The \<^verbatim>\<open>try\<close>/\<^verbatim>\<open>except\<close> around the read: the handler reads again, unguarded. The result
  is the encodings tried, in order, and what the last attempt gave.
\<close>

definition load_json :: "'f world \<Rightarrow> string \<Rightarrow> string list \<times> (py_error + 'f json)" where
  "load_json W p =
     (case read_utf8 W p of
        Inr j \<Rightarrow> ([''utf-8''], Inr j)
      | Inl e \<Rightarrow> ([''utf-8'', ''latin-1''], read_latin1 W p))"

text \<open>
  \<^verbatim>\<open>df = pd.DataFrame(rows)\<close>, \<^verbatim>\<open>if not df.empty: total += bulk_insert(df, engine, table)\<close>:
  a frame built from a list of row dicts is empty exactly when the list is.
\<close>

definition bulk_insert ::
  "'f world \<Rightarrow> 'f row list \<Rightarrow> string \<Rightarrow> 'f run_state \<Rightarrow> py_error + 'f run_state" where
  "bulk_insert W rows table st =
     (case st of (total_rows, sunk) \<Rightarrow>
        if sink_raises W sunk table rows then Inl SinkError
        else Inr (total_rows + int (length rows), sunk @ [(table, rows)]))"

definition insert_rows ::
  "'f world \<Rightarrow> string \<Rightarrow> 'f run_state \<Rightarrow> 'f row list \<Rightarrow> py_error + 'f run_state" where
  "insert_rows W table st rows = (if rows \<noteq> [] then bulk_insert W rows table st else Inr st)"

text \<open>\<^verbatim>\<open>sub in s\<close> on strings, \<^verbatim>\<open>country or 'india'\<close>, and the columns of the context.\<close>

fun contains :: "string \<Rightarrow> string \<Rightarrow> bool" where
  "contains sub [] = (sub = [])"
| "contains sub (c # cs) = (prefix sub (c # cs) \<or> contains sub cs)"

definition country_or_india :: "string option \<Rightarrow> string" where
  "country_or_india country =
     (case country of None \<Rightarrow> ''india'' | Some c \<Rightarrow> if c \<noteq> [] then c else ''india'')"

definition str_col :: "string option \<Rightarrow> 'f json" where
  "str_col v = (case v of None \<Rightarrow> JNull | Some s \<Rightarrow> JStr s)"

definition int_col :: "int option \<Rightarrow> 'f json" where
  "int_col v = (case v of None \<Rightarrow> JNull | Some n \<Rightarrow> JInt n)"

text \<open>The bodies of the three loops over the discovered files.\<close>

definition process_aggregated ::
  "'f py_ops \<Rightarrow> 'f world \<Rightarrow> string \<Rightarrow> 'f run_state \<Rightarrow> py_error + 'f run_state" where
  "process_aggregated F W p st =
     bindE (snd (load_json W p)) (\<lambda>j.
     bindE (parse_path_context p) (\<lambda>(country, state, district, year, quarter).
       let pp = replace [CHR 0x5C] ''/'' p;
           c = JStr (country_or_india country)
       in if contains ''/aggregated/transaction/'' pp then
            bindE (parse_aggregated_transaction F j c (str_col state) (str_col district)
                     (int_col year) (int_col quarter) (JStr p))
              (insert_rows W ''aggregated_transaction'' st)
          else if contains ''/aggregated/user/'' pp then
            bindE (parse_aggregated_user F j c (str_col state) (str_col district)
                     (int_col year) (int_col quarter) (JStr p))
              (insert_rows W ''aggregated_user'' st)
          else if contains ''/aggregated/insurance/'' pp then
            bindE (parse_aggregated_insurance F j c (str_col state) (str_col district)
                     (int_col year) (int_col quarter) (JStr p))
              (insert_rows W ''aggregated_insurance'' st)
          else Inr st))"

definition process_map ::
  "'f py_ops \<Rightarrow> 'f world \<Rightarrow> string \<Rightarrow> 'f run_state \<Rightarrow> py_error + 'f run_state" where
  "process_map F W p st =
     bindE (snd (load_json W p)) (\<lambda>j.
     bindE (parse_path_context p) (\<lambda>(country, state, district, year, quarter).
       let pp = replace [CHR 0x5C] ''/'' p;
           c = JStr (country_or_india country)
       in if contains ''/map/transaction/'' pp then
            bindE (parse_map_json F j ''transaction'' c (str_col state)
                     (int_col year) (int_col quarter) (JStr p))
              (insert_rows W ''map_map'' st)
          else if contains ''/map/user/'' pp then
            bindE (parse_map_json F j ''user'' c (str_col state)
                     (int_col year) (int_col quarter) (JStr p))
              (insert_rows W ''map_user'' st)
          else if contains ''/map/insurance/'' pp then
            bindE (parse_map_json F j ''insurance'' c (str_col state)
                     (int_col year) (int_col quarter) (JStr p))
              (insert_rows W ''map_insurance'' st)
          else Inr st))"

definition process_top ::
  "'f py_ops \<Rightarrow> 'f world \<Rightarrow> string \<Rightarrow> 'f run_state \<Rightarrow> py_error + 'f run_state" where
  "process_top F W p st =
     bindE (snd (load_json W p)) (\<lambda>j.
     bindE (parse_path_context p) (\<lambda>(country, state, district, year, quarter).
       let pp = replace [CHR 0x5C] ''/'' p;
           c = JStr (country_or_india country)
       in if contains ''/top/transaction/'' pp then
            bindE (parse_top_json F j ''transaction'' c (str_col state)
                     (int_col year) (int_col quarter) (JStr p))
              (insert_rows W ''top_map'' st)
          else if contains ''/top/user/'' pp then
            bindE (parse_top_json F j ''user'' c (str_col state)
                     (int_col year) (int_col quarter) (JStr p))
              (insert_rows W ''top_user'' st)
          else if contains ''/top/insurance/'' pp then
            bindE (parse_top_json F j ''insurance'' c (str_col state)
                     (int_col year) (int_col quarter) (JStr p))
              (insert_rows W ''top_insurance'' st)
          else Inr st))"

text \<open>
  A \<^verbatim>\<open>for\<close> loop over files: an exception in the body ends the loop, and with it the run.
  The result is the state reached and the exception, if one was raised.
\<close>

fun for_files ::
  "(string \<Rightarrow> 's \<Rightarrow> py_error + 's) \<Rightarrow> string list \<Rightarrow> 's \<Rightarrow> 's \<times> py_error option" where
  "for_files body [] s = (s, None)"
| "for_files body (p # ps) s =
     (case body p s of
        Inl e \<Rightarrow> (s, Some e)
      | Inr s' \<Rightarrow> for_files body ps s')"

text \<open>
  \<^verbatim>\<open>process_and_load\<close>, on the three sorted lists that \<^verbatim>\<open>discover_json_files\<close> gives for
  \<^verbatim>\<open>aggregated\<close>, \<^verbatim>\<open>map\<close> and \<^verbatim>\<open>top\<close>.
\<close>

definition process_and_load ::
  "'f py_ops \<Rightarrow> 'f world \<Rightarrow> string list \<times> string list \<times> string list
     \<Rightarrow> 'f run_state \<times> py_error option" where
  "process_and_load F W files =
     (case files of (aggregated, mapf, topf) \<Rightarrow>
        (case for_files (process_aggregated F W) aggregated (0, []) of
           (s1, Some e) \<Rightarrow> (s1, Some e)
         | (s1, None) \<Rightarrow>
             (case for_files (process_map F W) mapf s1 of
                (s2, Some e) \<Rightarrow> (s2, Some e)
              | (s2, None) \<Rightarrow> for_files (process_top F W) topf s2)))"

section \<open>An instance of the interpreter's operations\<close>

text \<open>
  For evaluating the loader on concrete documents: floats are the rationals, which is what
  doubles are on the values used below. \<^verbatim>\<open>int(s)\<close> is the conversion given above; \<^verbatim>\<open>float(s)\<close>
  is given on the numerals that \<^verbatim>\<open>int\<close> reads, and no document below holds a number as
  a string.
\<close>

definition exact_ops :: "rat py_ops" where
  "exact_ops =
     \<lparr> f_nonzero = (\<lambda>x. x \<noteq> 0),
       f_of_int = of_int,
       f_to_int = (\<lambda>x. Inr (if 0 \<le> x then \<lfloor>x\<rfloor> else \<lceil>x\<rceil>)),
       f_sum = sum_list,
       s_to_int = int_of_str,
       s_to_float = (\<lambda>s. bindE (int_of_str s) (\<lambda>n. Inr (of_int n))) \<rparr>"

section \<open>Concrete worlds\<close>


section \<open>Reference definitions for the statements\<close>

text \<open>
  What the theorems below compare the extractors with. A field of a dict, \<^verbatim>\<open>None\<close> when it is
  missing; a document whose payload holds a list of hover entries under \<^verbatim>\<open>hoverDataList\<close>.
\<close>

definition field :: "'f json \<Rightarrow> string \<Rightarrow> 'f json" where
  "field d k =
     (case d of
        JDict kvs \<Rightarrow> (case map_of kvs k of None \<Rightarrow> JNull | Some v \<Rightarrow> v)
      | _ \<Rightarrow> JNull)"


text \<open>
  Aggregated transactions. An instrument is well formed when it is a dict whose count is an
  integer or missing and whose amount is a float or missing; an entry is well formed when it
  is a dict whose instruments, if given, are a list of well-formed instruments.
\<close>

definition tagged_total :: "'f json \<Rightarrow> bool" where
  "tagged_total i = (field i ''type'' = JStr ''TOTAL'')"

definition wf_instrument :: "'f json \<Rightarrow> bool" where
  "wf_instrument i =
     (is_dict i \<and>
      (case field i ''count'' of JNull \<Rightarrow> True | JInt n \<Rightarrow> True | _ \<Rightarrow> False) \<and>
      (case field i ''amount'' of JNull \<Rightarrow> True | JFloat x \<Rightarrow> True | _ \<Rightarrow> False))"

definition instruments_of :: "'f json \<Rightarrow> 'f json list" where
  "instruments_of rec = (case field rec ''paymentInstruments'' of JList insts \<Rightarrow> insts | _ \<Rightarrow> [])"

definition wf_entry :: "'f json \<Rightarrow> bool" where
  "wf_entry rec =
     (is_dict rec \<and>
      (has_key rec ''paymentInstruments'' \<longrightarrow>
         (case field rec ''paymentInstruments'' of JList insts \<Rightarrow> True | _ \<Rightarrow> False)) \<and>
      list_all wf_instrument (instruments_of rec))"

text \<open>
  The sums over all instruments: a missing count counts as 0, a missing or zero amount as
  \<^verbatim>\<open>float(0)\<close>; the floats are added by the interpreter's \<^verbatim>\<open>sum\<close>.
\<close>

definition count_term :: "'f json \<Rightarrow> int" where
  "count_term i = (case field i ''count'' of JInt n \<Rightarrow> n | _ \<Rightarrow> 0)"

definition amount_term :: "'f py_ops \<Rightarrow> 'f json \<Rightarrow> 'f" where
  "amount_term F i =
     (case field i ''amount'' of
        JFloat x \<Rightarrow> if f_nonzero F x then x else f_of_int F 0
      | _ \<Rightarrow> f_of_int F 0)"

definition counts_sum :: "'f json list \<Rightarrow> 'f json" where
  "counts_sum insts = JInt (sum_list (map count_term insts))"

definition amounts_sum :: "'f py_ops \<Rightarrow> 'f json list \<Rightarrow> 'f json" where
  "amounts_sum F insts =
     JFloat (if insts = [] then f_of_int F 0 else f_sum F (map (amount_term F) insts))"

text \<open>
  The row stated for an entry: the count of the first instrument tagged \<^verbatim>\<open>TOTAL\<close> when
  that instrument has one, the sum of all counts otherwise; the same for the amount.
\<close>

definition stated_count :: "'f json list \<Rightarrow> 'f json" where
  "stated_count insts =
     (case find tagged_total insts of
        Some t \<Rightarrow> if field t ''count'' \<noteq> JNull then field t ''count'' else counts_sum insts
      | None \<Rightarrow> counts_sum insts)"

definition stated_amount :: "'f py_ops \<Rightarrow> 'f json list \<Rightarrow> 'f json" where
  "stated_amount F insts =
     (case find tagged_total insts of
        Some t \<Rightarrow> if field t ''amount'' \<noteq> JNull then field t ''amount'' else amounts_sum F insts
      | None \<Rightarrow> amounts_sum F insts)"

definition stated_row :: "'f py_ops \<Rightarrow> 'f row \<Rightarrow> 'f json \<Rightarrow> 'f row" where
  "stated_row F hdr rec =
     hdr @ [(''transaction_type'', field rec ''name''),
            (''transaction_count'', stated_count (instruments_of rec)),
            (''transaction_amount'', stated_amount F (instruments_of rec))]"

section \<open>Concrete documents\<close>

text \<open>
  Two transaction-type entries: one whose first instrument is tagged \<^verbatim>\<open>TOTAL\<close>, one with
  two untagged instruments that give counts only.
\<close>

definition entry_with_total :: "rat json" where
  "entry_with_total =
     JDict [(''name'', JStr ''Peer-to-peer payments''),
            (''paymentInstruments'',
             JList [JDict [(''type'', JStr ''TOTAL''), (''count'', JInt 100),
                           (''amount'', JFloat 5000)],
                    JDict [(''type'', JStr ''PhonePe''), (''count'', JInt 60),
                           (''amount'', JFloat 3000)]])]"

definition entry_without_total :: "rat json" where
  "entry_without_total =
     JDict [(''name'', JStr ''Merchant payments''),
            (''paymentInstruments'',
             JList [JDict [(''count'', JInt 10)], JDict [(''count'', JInt 20)]])]"

text \<open>An entry whose instrument tagged \<^verbatim>\<open>TOTAL\<close> gives an amount and no count.\<close>

definition entry_total_without_count :: "rat json" where
  "entry_total_without_count =
     JDict [(''name'', JStr ''Peer-to-peer payments''),
            (''paymentInstruments'',
             JList [JDict [(''type'', JStr ''TOTAL''), (''amount'', JFloat 5000)],
                    JDict [(''type'', JStr ''PhonePe''), (''count'', JInt 60),
                           (''amount'', JFloat 3000)]])]"

definition transaction_document :: "'f json list \<Rightarrow> 'f json" where
  "transaction_document recs = JDict [(''data'', JDict [(''transactionData'', JList recs)])]"

text \<open>Two device records of an aggregated-user document, under different key names.\<close>

definition device_a :: "rat json" where
  "device_a = JDict [(''brand'', JStr ''Xiaomi''), (''count'', JInt 5)]"

definition device_b :: "rat json" where
  "device_b = JDict [(''registeredUsers'', JInt 7), (''appOpens'', JInt 3)]"

definition device_document :: "'f json list \<Rightarrow> 'f json" where
  "device_document recs = JDict [(''data'', JDict [(''usersByDevice'', JList recs)])]"

text \<open>The value a row holds in its \<^verbatim>\<open>country\<close> column, and the nine destination tables.\<close>

definition row_country :: "'f row \<Rightarrow> 'f json option" where
  "row_country r = map_of r ''country''"

definition tables :: "string list" where
  "tables =
     [''aggregated_transaction'', ''aggregated_user'', ''aggregated_insurance'',
      ''map_map'', ''map_user'', ''map_insurance'',
      ''top_map'', ''top_user'', ''top_insurance'']"

text \<open>What a run may hand to the sink: a batch for one of the nine tables, every row of
  which holds a non-empty string in its \<^verbatim>\<open>country\<close> column.\<close>

definition batch_ok :: "string \<times> 'f row list \<Rightarrow> bool" where
  "batch_ok b =
     (fst b \<in> set tables \<and>
      (\<forall>r\<in>set (snd b). \<exists>c. c \<noteq> [] \<and> row_country r = Some (JStr c)))"

text \<open>
  Two aggregated-user files, the first of which cannot be read under either encoding while
  the second holds a summary document; and a map-user file with one hover entry.
\<close>

definition bad_path :: string where
  "bad_path = ''data/aggregated/user/country/india/2022/1.json''"

definition good_path :: string where
  "good_path = ''data/aggregated/user/country/india/2022/2.json''"

definition user_summary_document :: "rat json" where
  "user_summary_document = JDict [(''data'', JDict [(''registeredUsers'', JInt 500)])]"

definition broken_file_world :: "rat world" where
  "broken_file_world =
     \<lparr> read_utf8 = (\<lambda>p. if p = bad_path then Inl ReadError else Inr user_summary_document),
       read_latin1 = (\<lambda>p. Inl ReadError),
       sink_raises = (\<lambda>sunk table rows. False) \<rparr>"

definition map_path :: string where
  "map_path = ''data/map/user/hover/country/india/2022/1.json''"

definition map_user_document :: "rat json" where
  "map_user_document =
     JDict [(''data'',
             JDict [(''hoverData'',
                     JDict [(''pune'', JDict [(''registeredUsers'', JInt 5),
                                              (''appOpens'', JInt 3)])])])]"

definition map_file_world :: "rat world" where
  "map_file_world =
     \<lparr> read_utf8 = (\<lambda>p. Inr map_user_document),
       read_latin1 = (\<lambda>p. Inl ReadError),
       sink_raises = (\<lambda>sunk table rows. False) \<rparr>"

text \<open>
  Path segments. A segment is decimal when it is a non-empty string of at most 4300 of the digits 0 to 9
  (what \<^verbatim>\<open>int\<close> reads as a number);
  it is plain when \<^verbatim>\<open>isdigit\<close> accepts it only if it is decimal (it holds no superscript
  digit, or something that is no digit at all). The number read from a segment is its
  decimal value when \<^verbatim>\<open>isdigit\<close> accepts it.
\<close>

definition decimal :: "string \<Rightarrow> bool" where
  "decimal s = (s \<noteq> [] \<and> length s \<le> max_str_digits \<and> list_all is_ascii_digit s)"

definition plain :: "string \<Rightarrow> bool" where
  "plain s = (isdigit s \<longrightarrow> decimal s)"

definition number_of :: "string \<Rightarrow> int option" where
  "number_of s = (if isdigit s then Some (digits_value s) else None)"

text \<open>The segment that follows the first occurrence of a marker, if there is one.\<close>

fun following :: "string \<Rightarrow> string list \<Rightarrow> string option" where
  "following m [] = None"
| "following m [x] = None"
| "following m (x # y # zs) = (if x = m then Some y else following m (y # zs))"

text \<open>Paths on which the resolver is evaluated below.\<close>

definition india_path :: string where
  "india_path = ''/repo/data/aggregated/transaction/country/india/2022/1.json''"

definition tamil_nadu_path :: string where
  "tamil_nadu_path = ''data/aggregated/user/country/india/state/tamil%20nadu/20x2/3.json''"

definition karnataka_path :: string where
  "karnataka_path = ''data/top/user/state-wise/Karnataka/2022/q1.json''"

definition andaman_path :: string where
  "andaman_path = ''data/map/transaction/country/india/state-wise/andaman%20&%20nicobar/2021/4.json''"

text \<open>
  A path whose \<^verbatim>\<open>state\<close> marker is its last segment, and a path whose year segment is the
  superscript two (U+00B2), which \<^verbatim>\<open>isdigit\<close> accepts and \<^verbatim>\<open>int\<close> rejects.
\<close>

definition marker_last_path :: string where
  "marker_last_path = ''data/aggregated/transaction/2022/state''"

definition superscript_year_path :: string where
  "superscript_year_path =
     ''data/aggregated/transaction/country/india/'' @ [CHR 0xB2] @ ''/1.json''"

text \<open>
  A path with two \<^verbatim>\<open>data\<close> segments, and a map path whose \<^verbatim>\<open>state-wise\<close> marker is its last
  segment.
\<close>

definition two_data_path :: string where
  "two_data_path = ''/data/pulse/data/aggregated/transaction/country/india/2022/1.json''"

definition state_wise_last_path :: string where
  "state_wise_last_path = ''data/map/transaction/2022/state-wise''"

section \<open>Basic facts\<close>

lemma bindE_Inr [simp]: "bindE (Inr v) f = f v"
  by (simp add: bindE_def)

lemma bindE_Inl [simp]: "bindE (Inl e) f = Inl e"
  by (simp add: bindE_def)

lemma concat_mapE_Nil [simp]: "concat_mapE f [] = Inr []"
  by (simp add: concat_mapE_def)

lemma float_int_limit_pos: "0 < float_int_limit"
  by (simp add: float_int_limit_def)

lemma float_of_int_zero [simp]: "float_of_int F 0 = Inr (f_of_int F 0)"
  using float_int_limit_pos by (simp add: float_of_int_def)

lemma insert_rows_Nil [simp]: "insert_rows W table st [] = Inr st"
  by (simp add: insert_rows_def)

section \<open>The path resolver never raises\<close>

lemma index_of_error: "index_of x xs = Inl e \<Longrightarrow> e = ValueError"
  by (induction xs arbitrary: e) (auto simp: bindE_def split: if_splits sum.splits)

lemma tail_of_parts_total: "\<exists>tail. tail_of_parts parts = Inr tail"
  by (auto simp: tail_of_parts_def split: sum.splits dest: index_of_error)

lemma py_index_0: "xs \<noteq> [] \<Longrightarrow> py_index xs 0 = Inr (hd xs)"
  by (cases xs) (simp_all add: py_index_def)

lemma context_of_parts_total:
  "\<exists>c s y q. context_of_parts parts = Inr (c, s, None, y, q)"
proof -
  obtain tail where t: "tail_of_parts parts = Inr tail"
    using tail_of_parts_total by blast
  show ?thesis
  proof (cases "4 \<le> length tail")
    case True
    then have "tail \<noteq> []" by auto
    then show ?thesis
      using True t
      by (simp add: context_of_parts_def py_index_0 Let_def split: prod.splits)
  next
    case False
    then show ?thesis
      using t by (simp add: context_of_parts_def)
  qed
qed

lemma parse_path_context_total:
  "\<exists>c s y q. parse_path_context p = Inr (c, s, None, y, q)"
  by (simp add: parse_path_context_def context_of_parts_total)

section \<open>The empty document\<close>











section \<open>Aggregated users\<close>

text \<open>
  C6, as the code has it. A document whose payload has \<^verbatim>\<open>registeredUsers = 500\<close> and no
  \<^verbatim>\<open>activeUsers\<close> key gives what the conversion of its \<^verbatim>\<open>appOpens\<close> gives: when that
  conversion returns, exactly one row with \<^verbatim>\<open>registered_users = 500\<close> and \<^verbatim>\<open>active_users\<close>
  null; when it raises, the extractor raises the same exception and gives no row. The
  conversion returns 0 for a missing or null \<^verbatim>\<open>appOpens\<close> and \<open>n\<close> for the integer \<open>n\<close>.
\<close>

theorem summary_without_active_users:
  assumes "safe_get j [''data''] = JDict kvs"
    and "map_of kvs ''registeredUsers'' = Some (JInt 500)"
    and "map_of kvs ''activeUsers'' = None"
  shows "parse_aggregated_user F j c s d y q src =
           bindE (int_of F (JDict kvs) [''appOpens'']) (\<lambda>opens.
             Inr [header src c s d y q @
                  [(''registered_users'', JInt 500), (''app_opens'', opens),
                   (''active_users'', JNull)]]) \<and>
         (map_of kvs ''appOpens'' = None \<or> map_of kvs ''appOpens'' = Some JNull
            \<longrightarrow> int_of F (JDict kvs) [''appOpens''] = Inr (JInt 0)) \<and>
         (map_of kvs ''appOpens'' = Some (JInt n)
            \<longrightarrow> int_of F (JDict kvs) [''appOpens''] = Inr (JInt n))"
proof (intro conjI impI)
  have "kvs \<noteq> []" using assms(2) by auto
  then have data: "py_or F (safe_get j [''data'']) (JDict []) = JDict kvs"
    using assms(1) by (simp add: py_or_def)
  have reg: "int_of F (JDict kvs) [''registeredUsers''] = Inr (JInt 500)"
    using assms(2) by (simp add: int_of_def)
  show "parse_aggregated_user F j c s d y q src =
          bindE (int_of F (JDict kvs) [''appOpens'']) (\<lambda>opens.
            Inr [header src c s d y q @
                 [(''registered_users'', JInt 500), (''app_opens'', opens),
                  (''active_users'', JNull)]])"
    unfolding parse_aggregated_user_def data Let_def
    using assms(2,3) reg by (simp add: is_dict_def has_key_def)
next
  assume "map_of kvs ''appOpens'' = None \<or> map_of kvs ''appOpens'' = Some JNull"
  then show "int_of F (JDict kvs) [''appOpens''] = Inr (JInt 0)"
    by (auto simp: int_of_def)
next
  assume "map_of kvs ''appOpens'' = Some (JInt n)"
  then show "int_of F (JDict kvs) [''appOpens''] = Inr (JInt n)"
    by (simp add: int_of_def)
qed

theorem summary_without_active_users_witness:
  "parse_aggregated_user exact_ops (JDict [(''data'', JDict [(''registeredUsers'', JInt 500)])])
     (JStr ''india'') JNull JNull (JInt 2022) (JInt 1) (JStr ''p'') =
   Inr [header (JStr ''p'') (JStr ''india'') JNull JNull (JInt 2022) (JInt 1) @
        [(''registered_users'', JInt 500), (''app_opens'', JInt 0), (''active_users'', JNull)]] \<and>
   parse_aggregated_user exact_ops
     (JDict [(''data'', JDict [(''registeredUsers'', JInt 500), (''appOpens'', JInt 7)])])
     (JStr ''india'') JNull JNull (JInt 2022) (JInt 1) (JStr ''p'') =
   Inr [header (JStr ''p'') (JStr ''india'') JNull JNull (JInt 2022) (JInt 1) @
        [(''registered_users'', JInt 500), (''app_opens'', JInt 7), (''active_users'', JNull)]]"
  using summary_without_active_users
    [of "JDict [(''data'', JDict [(''registeredUsers'', JInt 500)])]"
        "[(''registeredUsers'', JInt 500)]" exact_ops
        "JStr ''india''" JNull JNull "JInt 2022" "JInt 1" "JStr ''p''" 0]
    summary_without_active_users
    [of "JDict [(''data'', JDict [(''registeredUsers'', JInt 500), (''appOpens'', JInt 7)])]"
        "[(''registeredUsers'', JInt 500), (''appOpens'', JInt 7)]" exact_ops
        "JStr ''india''" JNull JNull "JInt 2022" "JInt 1" "JStr ''p''" 7]
  by simp

text \<open>
  The claim as stated fails on a payload whose \<^verbatim>\<open>appOpens\<close> is a list: it has
  \<^verbatim>\<open>registeredUsers = 500\<close> and no \<^verbatim>\<open>activeUsers\<close> key, and the extractor raises instead of
  giving a row.
\<close>

theorem summary_bad_app_opens_counterexample:
  "parse_aggregated_user exact_ops
     (JDict [(''data'', JDict [(''registeredUsers'', JInt 500), (''appOpens'', JList [JInt 1])])])
     (JStr ''india'') JNull JNull (JInt 2022) (JInt 1) (JStr ''p'') = Inl TypeError"
  by (simp add: parse_aggregated_user_def py_or_def is_dict_def has_key_def int_of_def)

lemma sum_devices_sums:
  assumes "\<forall>r\<in>set recs.
             bindE (get_or F r [''registeredUsers'', ''count''] (JInt 0)) (py_int F) = Inr (reg r) \<and>
             bindE (get_or F r [''appOpens'', ''appOpensCount''] (JInt 0)) (py_int F) = Inr (opens r)"
  shows "sum_devices F (a, b) recs = Inr (a + sum_list (map reg recs), b + sum_list (map opens recs))"
  using assms
proof (induction recs arbitrary: a b)
  case Nil
  then show ?case by simp
next
  case (Cons r recs)
  from Cons.prems have
    r1: "bindE (get_or F r [''registeredUsers'', ''count''] (JInt 0)) (py_int F) = Inr (reg r)" and
    r2: "bindE (get_or F r [''appOpens'', ''appOpensCount''] (JInt 0)) (py_int F) = Inr (opens r)"
    by auto
  from r1 obtain v where v: "get_or F r [''registeredUsers'', ''count''] (JInt 0) = Inr v"
    "py_int F v = Inr (reg r)"
    by (cases "get_or F r [''registeredUsers'', ''count''] (JInt 0)") auto
  from r2 obtain w where w: "get_or F r [''appOpens'', ''appOpensCount''] (JInt 0) = Inr w"
    "py_int F w = Inr (opens r)"
    by (cases "get_or F r [''appOpens'', ''appOpensCount''] (JInt 0)") auto
  have "sum_devices F (a, b) (r # recs) = sum_devices F (a + reg r, b + opens r) recs"
    using v w by (simp del: get_or.simps)
  also have "\<dots> = Inr (a + reg r + sum_list (map reg recs), b + opens r + sum_list (map opens recs))"
    using Cons.IH[of "a + reg r" "b + opens r"] Cons.prems by simp
  finally show ?case by (simp add: add.assoc)
qed

text \<open>
  C5, as the code has it. The payload has none of the three summary keys and holds a
  non-empty list under \<^verbatim>\<open>usersByDevice\<close>; each record of the list reads as the integer
  \<open>reg r\<close> under \<^verbatim>\<open>registeredUsers\<close> or \<^verbatim>\<open>count\<close> and as \<open>opens r\<close> under \<^verbatim>\<open>appOpens\<close> or
  \<^verbatim>\<open>appOpensCount\<close>. Then there is exactly one row, with the two sums and with
  \<^verbatim>\<open>active_users\<close> null.
\<close>

theorem device_breakdown_is_summed:
  assumes "safe_get j [''data''] = JDict kvs"
    and "map_of kvs ''registeredUsers'' = None"
    and "map_of kvs ''appOpens'' = None"
    and "map_of kvs ''activeUsers'' = None"
    and "map_of kvs ''usersByDevice'' = Some (JList recs)"
    and "recs \<noteq> []"
    and "\<forall>r\<in>set recs.
           bindE (get_or F r [''registeredUsers'', ''count''] (JInt 0)) (py_int F) = Inr (reg r) \<and>
           bindE (get_or F r [''appOpens'', ''appOpensCount''] (JInt 0)) (py_int F) = Inr (opens r)"
  shows "parse_aggregated_user F j c s d y q src =
           Inr [header src c s d y q @
                [(''registered_users'', JInt (sum_list (map reg recs))),
                 (''app_opens'', JInt (sum_list (map opens recs))),
                 (''active_users'', JNull)]]"
proof -
  have "kvs \<noteq> []" using assms(5) by auto
  then have data: "py_or F (safe_get j [''data'']) (JDict []) = JDict kvs"
    using assms(1) by (simp add: py_or_def)
  show ?thesis
    unfolding parse_aggregated_user_def data Let_def
    using assms(2-6) sum_devices_sums[OF assms(7), of 0 0]
    by (simp add: is_dict_def has_key_def)
qed

theorem device_breakdown_is_summed_witness:
  "parse_aggregated_user exact_ops (device_document [device_a, device_b])
     (JStr ''india'') JNull JNull (JInt 2022) (JInt 1) (JStr ''p'') =
   Inr [header (JStr ''p'') (JStr ''india'') JNull JNull (JInt 2022) (JInt 1) @
        [(''registered_users'', JInt 12), (''app_opens'', JInt 3), (''active_users'', JNull)]]"
  using device_breakdown_is_summed
    [of "device_document [device_a, device_b]" "[(''usersByDevice'', JList [device_a, device_b])]"
        "[device_a, device_b]" exact_ops
        "\<lambda>r. if r = device_a then 5 else 7" "\<lambda>r. if r = device_a then 0 else 3"]
  by (simp add: device_document_def device_a_def device_b_def)

text \<open>
  The claim as stated fails on an empty list: the payload has no summary key and holds a
  list under \<^verbatim>\<open>usersByDevice\<close>, and no row comes out.
\<close>

theorem empty_device_list_counterexample:
  "safe_get (device_document [] :: rat json) [''data''] = JDict [(''usersByDevice'', JList [])] \<and>
   parse_aggregated_user exact_ops (device_document [])
     (JStr ''india'') JNull JNull (JInt 2022) (JInt 1) (JStr ''p'') = Inr []"
  by (simp add: device_document_def parse_aggregated_user_def py_or_def is_dict_def has_key_def)

section \<open>Map transactions\<close>

lemma concat_mapE_single [simp]: "concat_mapE f [x] = f x"
  by (cases "f x") (simp_all add: concat_mapE_def)




lemma int_of_empty_dict [simp]: "int_of F (JDict []) ks = Inr (JInt 0)"
  by (induction ks) (simp_all add: int_of_def)

lemma float_of_empty_dict [simp]: "float_of F (JDict []) ks = Inr (JFloat (f_of_int F 0))"
  by (induction ks) (simp_all add: float_of_def)




section \<open>Aggregated transactions\<close>

lemma py_get_field: "is_dict d \<Longrightarrow> py_get d k = Inr (field d k)"
  by (cases d) (simp_all add: is_dict_def field_def)

lemma get_or_single_field:
  "is_dict d \<Longrightarrow> get_or F d [k] dflt = Inr (if truthy F (field d k) then field d k else dflt)"
  by (simp add: py_get_field)

lemma find_total_wf:
  "list_all is_dict insts \<Longrightarrow>
   find_total insts =
     Inr (case find tagged_total insts of
            Some t \<Rightarrow> (field t ''count'', field t ''amount'')
          | None \<Rightarrow> (JNull, JNull))"
  by (induction insts) (simp_all add: py_get_field tagged_total_def)

lemma wf_instrument_dict: "wf_instrument i \<Longrightarrow> is_dict i"
  by (simp add: wf_instrument_def)

lemma count_conv_wf:
  "wf_instrument i \<Longrightarrow> bindE (get_or F i [''count''] (JInt 0)) (py_int F) = Inr (count_term i)"
  by (auto simp: wf_instrument_def get_or_single_field count_term_def split: json.splits
      simp del: get_or.simps)

lemma amount_conv_wf:
  "wf_instrument i \<Longrightarrow>
   bindE (get_or F i [''amount''] (JInt 0)) (py_float F) = Inr (amount_term F i)"
  by (auto simp: wf_instrument_def get_or_single_field amount_term_def split: json.splits
      simp del: get_or.simps)

lemma mapE_all_Inr: "\<forall>x\<in>set xs. f x = Inr (g x) \<Longrightarrow> mapE f xs = Inr (map g xs)"
  by (induction xs) simp_all

lemma sum_counts_wf: "list_all wf_instrument insts \<Longrightarrow> sum_counts F insts = counts_sum insts"
  by (simp add: sum_counts_def counts_sum_def list_all_iff
      mapE_all_Inr[where g = count_term] count_conv_wf del: get_or.simps)

lemma sum_amounts_wf:
  "list_all wf_instrument insts \<Longrightarrow>
   sum_amounts F insts = (if insts = [] then JInt 0 else amounts_sum F insts)"
  by (simp add: sum_amounts_def amounts_sum_def list_all_iff
      mapE_all_Inr[where g = "amount_term F"] amount_conv_wf del: get_or.simps)

lemma find_tagged_wf:
  "list_all wf_instrument insts \<Longrightarrow> find tagged_total insts = Some t \<Longrightarrow> wf_instrument t"
  by (auto simp: find_Some_iff list_all_iff)

lemma int_or_none_count:
  "wf_instrument t \<Longrightarrow> field t ''count'' \<noteq> JNull \<Longrightarrow>
   int_or_none F (field t ''count'') = Inr (field t ''count'')"
  by (auto simp: wf_instrument_def int_or_none_def not_none_or_empty_def split: json.splits)

lemma float_or_none_amount:
  "wf_instrument t \<Longrightarrow> field t ''amount'' \<noteq> JNull \<Longrightarrow>
   float_or_none F (field t ''amount'') = Inr (field t ''amount'')"
  by (auto simp: wf_instrument_def float_or_none_def not_none_or_empty_def split: json.splits)

lemma int_or_none_counts_sum: "int_or_none F (counts_sum insts) = Inr (counts_sum insts)"
  by (simp add: int_or_none_def counts_sum_def not_none_or_empty_def)

lemma float_or_none_amounts_sum:
  "float_or_none F (if insts = [] then JInt 0 else amounts_sum F insts) = Inr (amounts_sum F insts)"
  by (simp add: float_or_none_def amounts_sum_def not_none_or_empty_def)

lemma count_column_wf:
  assumes "list_all wf_instrument insts"
  shows "int_or_none F
           (case find tagged_total insts of
              Some t \<Rightarrow> if field t ''count'' = JNull then sum_counts F insts else field t ''count''
            | None \<Rightarrow> sum_counts F insts) = Inr (stated_count insts)"
  using assms find_tagged_wf[OF assms]
  by (auto simp: stated_count_def sum_counts_wf int_or_none_counts_sum int_or_none_count
      split: option.splits)

lemma amount_column_wf:
  assumes "list_all wf_instrument insts"
  shows "float_or_none F
           (case find tagged_total insts of
              Some t \<Rightarrow> if field t ''amount'' = JNull then sum_amounts F insts else field t ''amount''
            | None \<Rightarrow> sum_amounts F insts) = Inr (stated_amount F insts)"
  using assms find_tagged_wf[OF assms]
  by (auto simp: stated_amount_def sum_amounts_wf float_or_none_amounts_sum float_or_none_amount
      split: option.splits)

lemma py_get_default_instruments:
  "wf_entry rec \<Longrightarrow>
   py_get_default rec ''paymentInstruments'' (JList []) = Inr (JList (instruments_of rec))"
  by (cases rec)
    (auto simp: wf_entry_def is_dict_def has_key_def field_def instruments_of_def
      split: option.splits json.splits)

lemma aggregated_transaction_row_wf:
  assumes "wf_entry rec"
  shows "aggregated_transaction_row F hdr rec = Inr (stated_row F hdr rec)"
proof -
  let ?insts = "instruments_of rec"
  have wf: "list_all wf_instrument ?insts" and d: "is_dict rec"
    using assms by (simp_all add: wf_entry_def)
  have dicts: "list_all is_dict ?insts"
    using wf by (auto simp: list_all_iff wf_instrument_dict)
  show ?thesis
  proof (cases "find tagged_total ?insts")
    case None
    then show ?thesis
      unfolding aggregated_transaction_row_def
      using count_column_wf[OF wf, of F] amount_column_wf[OF wf, of F]
      by (simp add: py_get_field[OF d] py_get_default_instruments[OF assms]
          find_total_wf[OF dicts] stated_row_def)
  next
    case (Some t)
    then show ?thesis
      unfolding aggregated_transaction_row_def
      using count_column_wf[OF wf, of F] amount_column_wf[OF wf, of F]
      by (simp add: py_get_field[OF d] py_get_default_instruments[OF assms]
          find_total_wf[OF dicts] stated_row_def)
  qed
qed

text \<open>
  C3, as the code has it. On a document whose \<^verbatim>\<open>transactionData\<close> is a list of well-formed
  entries, the extractor gives one row per entry, in order, and each is the stated row: the
  count of the first instrument tagged \<^verbatim>\<open>TOTAL\<close> when that instrument has a count, and the
  sum of the counts of all instruments when no instrument is tagged or the tagged one has
  no count; the same for the amount.
\<close>

theorem total_instrument_else_sum:
  assumes "safe_get j [''data'', ''transactionData''] = JList recs"
    and "list_all wf_entry recs"
  shows "parse_aggregated_transaction F j c s d y q src =
           Inr (map (stated_row F (header src c s d y q)) recs)"
proof -
  have "py_iter (py_or F (safe_get j [''data'', ''transactionData'']) (JList [])) = Inr recs"
    using assms(1) by (simp add: py_or_def)
  moreover have "mapE (aggregated_transaction_row F (header src c s d y q)) recs =
                   Inr (map (stated_row F (header src c s d y q)) recs)"
    using assms(2) by (intro mapE_all_Inr) (simp add: list_all_iff aggregated_transaction_row_wf)
  ultimately show ?thesis
    by (simp add: parse_aggregated_transaction_def)
qed


theorem total_instrument_else_sum_witness:
  "list_all wf_entry [entry_with_total, entry_without_total] \<and>
   parse_aggregated_transaction exact_ops
     (transaction_document [entry_with_total, entry_without_total])
     (JStr ''india'') JNull JNull (JInt 2022) (JInt 1) (JStr ''p'') =
   Inr [header (JStr ''p'') (JStr ''india'') JNull JNull (JInt 2022) (JInt 1) @
        [(''transaction_type'', JStr ''Peer-to-peer payments''),
         (''transaction_count'', JInt 100), (''transaction_amount'', JFloat 5000)],
        header (JStr ''p'') (JStr ''india'') JNull JNull (JInt 2022) (JInt 1) @
        [(''transaction_type'', JStr ''Merchant payments''),
         (''transaction_count'', JInt 30), (''transaction_amount'', JFloat 0)]]"
proof -
  have wf: "list_all wf_entry [entry_with_total, entry_without_total]"
    by (simp add: wf_entry_def wf_instrument_def instruments_of_def field_def is_dict_def
        has_key_def entry_with_total_def entry_without_total_def)
  have doc: "safe_get (transaction_document [entry_with_total, entry_without_total])
               [''data'', ''transactionData''] = JList [entry_with_total, entry_without_total]"
    by (simp add: transaction_document_def)
  show ?thesis
    using wf total_instrument_else_sum [OF doc wf, of exact_ops "JStr ''india''" JNull JNull
        "JInt 2022" "JInt 1" "JStr ''p''"]
    by (simp add: stated_row_def stated_count_def stated_amount_def counts_sum_def
        amounts_sum_def count_term_def amount_term_def tagged_total_def instruments_of_def
        field_def entry_with_total_def entry_without_total_def exact_ops_def)
qed

text \<open>
  The claim as stated fails on an entry whose instrument tagged \<^verbatim>\<open>TOTAL\<close> has no count:
  the count of the row is the sum over all instruments, 60, and not what the tagged
  instrument holds.
\<close>

theorem total_without_count_counterexample:
  "find tagged_total (instruments_of entry_total_without_count) =
     Some (JDict [(''type'', JStr ''TOTAL''), (''amount'', JFloat 5000)]) \<and>
   parse_aggregated_transaction exact_ops (transaction_document [entry_total_without_count])
     (JStr ''india'') JNull JNull (JInt 2022) (JInt 1) (JStr ''p'') =
   Inr [header (JStr ''p'') (JStr ''india'') JNull JNull (JInt 2022) (JInt 1) @
        [(''transaction_type'', JStr ''Peer-to-peer payments''),
         (''transaction_count'', JInt 60), (''transaction_amount'', JFloat 5000)]]"
  by (simp add: transaction_document_def entry_total_without_count_def instruments_of_def
      field_def tagged_total_def parse_aggregated_transaction_def py_or_def
      aggregated_transaction_row_def sum_counts_def sum_amounts_def int_or_none_def
      float_or_none_def not_none_or_empty_def exact_ops_def)

section \<open>Every row handed to the sink has a country\<close>

lemma bindE_eq_Inr: "bindE m f = Inr y \<longleftrightarrow> (\<exists>x. m = Inr x \<and> f x = Inr y)"
  by (cases m) simp_all

lemma mapE_pointwise:
  assumes "mapE f xs = Inr ys"
    and "\<And>x y. f x = Inr y \<Longrightarrow> P y"
  shows "\<forall>y\<in>set ys. P y"
  using assms(1)
proof (induction xs arbitrary: ys)
  case Nil
  then show ?case by simp
next
  case (Cons x xs)
  then obtain y ys' where "f x = Inr y" "mapE f xs = Inr ys'" "ys = y # ys'"
    by (auto simp: bindE_eq_Inr)
  then show ?case
    using Cons.IH assms(2) by auto
qed

lemma concat_mapE_pointwise:
  assumes "concat_mapE f xs = Inr ys"
    and "\<And>x zs. f x = Inr zs \<Longrightarrow> \<forall>z\<in>set zs. P z"
  shows "\<forall>y\<in>set ys. P y"
proof -
  from assms(1) obtain yss where m: "mapE f xs = Inr yss" and c: "ys = concat yss"
    by (auto simp: concat_mapE_def bindE_eq_Inr)
  have "\<forall>zs\<in>set yss. \<forall>z\<in>set zs. P z"
    using mapE_pointwise[OF m, where P = "\<lambda>zs. \<forall>z\<in>set zs. P z"] assms(2) by blast
  then show ?thesis
    using c by auto
qed

lemma row_country_header [simp]:
  "row_country (header src c s d y q @ ex) = Some c"
  by (simp add: row_country_def header_def)

lemma aggregated_transaction_row_country:
  "aggregated_transaction_row F (header src c s d y q) rec = Inr r \<Longrightarrow> row_country r = Some c"
  by (auto simp: aggregated_transaction_row_def bindE_eq_Inr Let_def split: prod.splits)

lemma parse_aggregated_transaction_country:
  "parse_aggregated_transaction F j c s d y q src = Inr rows \<Longrightarrow>
   \<forall>r\<in>set rows. row_country r = Some c"
  unfolding parse_aggregated_transaction_def bindE_eq_Inr
  by (auto dest!: mapE_pointwise[where P = "\<lambda>r. row_country r = Some c"]
      intro: aggregated_transaction_row_country)

lemma parse_aggregated_user_country:
  "parse_aggregated_user F j c s d y q src = Inr rows \<Longrightarrow>
   \<forall>r\<in>set rows. row_country r = Some c"
  unfolding parse_aggregated_user_def Let_def
  by (auto simp: bindE_eq_Inr split: if_splits sum.splits json.splits prod.splits)

lemma aggregated_insurance_row_country:
  "aggregated_insurance_row F (header src c s d y q) rec = Inr r \<Longrightarrow> row_country r = Some c"
  by (auto simp: aggregated_insurance_row_def bindE_eq_Inr)

lemma parse_aggregated_insurance_country:
  "parse_aggregated_insurance F j c s d y q src = Inr rows \<Longrightarrow>
   \<forall>r\<in>set rows. row_country r = Some c"
  unfolding parse_aggregated_insurance_def Let_def bindE_eq_Inr
  by (auto dest!: mapE_pointwise[where P = "\<lambda>r. row_country r = Some c"]
      intro: aggregated_insurance_row_country)

lemma map_transaction_item_country:
  "map_transaction_item F c s y q src item = Inr rows \<Longrightarrow> \<forall>r\<in>set rows. row_country r = Some c"
  by (auto simp: map_transaction_item_def bindE_eq_Inr split: if_splits)

lemma map_user_item_country:
  "map_user_item F c s y q src kv = Inr rows \<Longrightarrow> \<forall>r\<in>set rows. row_country r = Some c"
  by (auto simp: map_user_item_def bindE_eq_Inr split: if_splits prod.splits)

lemma map_insurance_row_country:
  "map_insurance_row F c s y q src name metric = Inr rows \<Longrightarrow>
   \<forall>r\<in>set rows. row_country r = Some c"
  by (auto simp: map_insurance_row_def bindE_eq_Inr)

lemma map_insurance_item_country:
  "map_insurance_item F c s y q src item = Inr rows \<Longrightarrow> \<forall>r\<in>set rows. row_country r = Some c"
  by (auto simp: map_insurance_item_def bindE_eq_Inr split: if_splits
      dest: map_insurance_row_country)

lemma map_insurance_cand_country:
  assumes "map_insurance_cand F c s y q src cand = Inr rows"
  shows "\<forall>r\<in>set rows. row_country r = Some c"
proof (cases cand)
  case (JList items)
  with assms have
    "concat_mapE (map_insurance_item F c s y q src) items = Inr rows"
    by (simp add: map_insurance_cand_def)
  then show ?thesis
    by (rule concat_mapE_pointwise) (rule map_insurance_item_country)
next
  case (JDict kvs)
  let ?f = "\<lambda>kv. case kv of (name, metric) \<Rightarrow>
              if \<not> is_dict metric then Inr []
              else map_insurance_row F c s y q src (JStr name) metric"
  have step: "\<forall>z\<in>set zs. row_country z = Some c" if "?f kv = Inr zs" for kv zs
  proof (cases kv)
    case (Pair name metric)
    show ?thesis
    proof (cases "is_dict metric")
      case True
      with that Pair have "map_insurance_row F c s y q src (JStr name) metric = Inr zs"
        by simp
      then show ?thesis by (rule map_insurance_row_country)
    next
      case False
      with that Pair show ?thesis by simp
    qed
  qed
  from assms JDict have "concat_mapE ?f kvs = Inr rows"
    by (simp add: map_insurance_cand_def)
  then show ?thesis
    by (rule concat_mapE_pointwise) (rule step)
qed (use assms in \<open>simp_all add: map_insurance_cand_def\<close>)

lemma parse_map_json_country:
  assumes "parse_map_json F j kind c s y q src = Inr rows"
  shows "\<forall>r\<in>set rows. row_country r = Some c"
proof -
  let ?data = "py_or F (safe_get j [''data'']) (JDict [])"
  consider (tx) "kind = ''transaction''"
    | (user) "kind \<noteq> ''transaction''" "kind = ''user''"
    | (ins) "kind \<noteq> ''transaction''" "kind \<noteq> ''user''" "kind = ''insurance''"
    | (other) "kind \<noteq> ''transaction''" "kind \<noteq> ''user''" "kind \<noteq> ''insurance''"
    by blast
  then show ?thesis
  proof cases
    case tx
    have inner: "\<forall>z\<in>set zs. row_country z = Some c"
      if "concat_mapE (map_transaction_item F c s y q src) cand = Inr zs" for cand zs
      using that by (rule concat_mapE_pointwise) (rule map_transaction_item_country)
    from assms tx have
      "concat_mapE (concat_mapE (map_transaction_item F c s y q src)) (tx_candidates ?data) =
         Inr rows"
      by (simp add: parse_map_json_def Let_def)
    then show ?thesis
      by (rule concat_mapE_pointwise) (rule inner)
  next
    case user
    from assms user obtain h0 where
      h: "(case py_or F h0 (JDict []) of
             JDict kvs \<Rightarrow> concat_mapE (map_user_item F c s y q src) kvs
           | _ \<Rightarrow> Inr []) = Inr rows"
      by (auto simp: parse_map_json_def Let_def bindE_eq_Inr)
    show ?thesis
    proof (cases "py_or F h0 (JDict [])")
      case (JDict kvs)
      with h have "concat_mapE (map_user_item F c s y q src) kvs = Inr rows"
        by simp
      then show ?thesis
        by (rule concat_mapE_pointwise) (rule map_user_item_country)
    qed (use h in simp_all)
  next
    case ins
    from assms ins have
      "concat_mapE (map_insurance_cand F c s y q src) (insurance_candidates ?data) = Inr rows"
      by (simp add: parse_map_json_def Let_def)
    then show ?thesis
      by (rule concat_mapE_pointwise) (rule map_insurance_cand_country)
  next
    case other
    with assms show ?thesis
      by (simp add: parse_map_json_def Let_def)
  qed
qed

lemma top_item_country:
  "top_item F kind c s y q src item = Inr rows \<Longrightarrow> \<forall>r\<in>set rows. row_country r = Some c"
  by (auto simp: top_item_def bindE_eq_Inr Let_def split: if_splits)

lemma parse_top_json_country:
  assumes "parse_top_json F j kind c s y q src = Inr rows"
  shows "\<forall>r\<in>set rows. row_country r = Some c"
proof -
  have inner: "\<forall>z\<in>set zs. row_country z = Some c"
    if "concat_mapE (top_item F kind c s y q src) lst = Inr zs" for lst zs
    using that by (rule concat_mapE_pointwise) (rule top_item_country)
  from assms obtain lists where
    "concat_mapE (concat_mapE (top_item F kind c s y q src)) lists = Inr rows"
    by (auto simp: parse_top_json_def Let_def)
  then show ?thesis
    by (rule concat_mapE_pointwise) (rule inner)
qed

lemma country_or_india_nonempty [simp]: "country_or_india country \<noteq> []"
  by (simp add: country_or_india_def split: option.splits)

lemma country_or_india_None [simp]: "country_or_india None = ''india''"
  by (simp add: country_or_india_def)

text \<open>One file: the extractor's rows, if any, are appended as one batch.\<close>

lemma extract_and_insert:
  assumes "bindE extract (insert_rows W table (t, sunk)) = Inr (t', sunk')"
    and "\<And>rows. extract = Inr rows \<Longrightarrow> \<forall>r\<in>set rows. row_country r = Some (JStr c)"
  shows "sunk' = sunk \<or>
         (\<exists>rows. sunk' = sunk @ [(table, rows)] \<and> (\<forall>r\<in>set rows. row_country r = Some (JStr c)))"
  using assms
  by (auto simp: bindE_eq_Inr insert_rows_def bulk_insert_def split: if_splits)

lemma process_aggregated_step:
  assumes "process_aggregated F W p (t, sunk) = Inr (t', sunk')"
    and "parse_path_context p = Inr (country, s, d, y, q)"
  shows "sunk' = sunk \<or>
         (\<exists>table rows. table \<in> set tables \<and> sunk' = sunk @ [(table, rows)] \<and>
            (\<forall>r\<in>set rows. row_country r = Some (JStr (country_or_india country))))"
proof -
  let ?pp = "replace [CHR 0x5C] ''/'' p"
  from assms obtain j where j: "snd (load_json W p) = Inr j"
    by (auto simp: process_aggregated_def bindE_eq_Inr)
  consider (tx) "contains ''/aggregated/transaction/'' ?pp"
    | (user) "\<not> contains ''/aggregated/transaction/'' ?pp" "contains ''/aggregated/user/'' ?pp"
    | (ins) "\<not> contains ''/aggregated/transaction/'' ?pp" "\<not> contains ''/aggregated/user/'' ?pp"
        "contains ''/aggregated/insurance/'' ?pp"
    | (none) "\<not> contains ''/aggregated/transaction/'' ?pp" "\<not> contains ''/aggregated/user/'' ?pp"
        "\<not> contains ''/aggregated/insurance/'' ?pp"
    by blast
  then show ?thesis
  proof cases
    case tx
    with assms j have
      "bindE (parse_aggregated_transaction F j (JStr (country_or_india country)) (str_col s)
                (str_col d) (int_col y) (int_col q) (JStr p))
         (insert_rows W ''aggregated_transaction'' (t, sunk)) = Inr (t', sunk')"
      by (simp add: process_aggregated_def Let_def)
    from extract_and_insert[OF this parse_aggregated_transaction_country] show ?thesis
      by (auto simp: tables_def)
  next
    case user
    with assms j have
      "bindE (parse_aggregated_user F j (JStr (country_or_india country)) (str_col s)
                (str_col d) (int_col y) (int_col q) (JStr p))
         (insert_rows W ''aggregated_user'' (t, sunk)) = Inr (t', sunk')"
      by (simp add: process_aggregated_def Let_def)
    from extract_and_insert[OF this parse_aggregated_user_country] show ?thesis
      by (auto simp: tables_def)
  next
    case ins
    with assms j have
      "bindE (parse_aggregated_insurance F j (JStr (country_or_india country)) (str_col s)
                (str_col d) (int_col y) (int_col q) (JStr p))
         (insert_rows W ''aggregated_insurance'' (t, sunk)) = Inr (t', sunk')"
      by (simp add: process_aggregated_def Let_def)
    from extract_and_insert[OF this parse_aggregated_insurance_country] show ?thesis
      by (auto simp: tables_def)
  next
    case none
    with assms j show ?thesis
      by (simp add: process_aggregated_def Let_def)
  qed
qed

lemma process_map_step:
  assumes "process_map F W p (t, sunk) = Inr (t', sunk')"
    and "parse_path_context p = Inr (country, s, d, y, q)"
  shows "sunk' = sunk \<or>
         (\<exists>table rows. table \<in> set tables \<and> sunk' = sunk @ [(table, rows)] \<and>
            (\<forall>r\<in>set rows. row_country r = Some (JStr (country_or_india country))))"
proof -
  let ?pp = "replace [CHR 0x5C] ''/'' p"
  from assms obtain j where j: "snd (load_json W p) = Inr j"
    by (auto simp: process_map_def bindE_eq_Inr)
  consider (tx) "contains ''/map/transaction/'' ?pp"
    | (user) "\<not> contains ''/map/transaction/'' ?pp" "contains ''/map/user/'' ?pp"
    | (ins) "\<not> contains ''/map/transaction/'' ?pp" "\<not> contains ''/map/user/'' ?pp"
        "contains ''/map/insurance/'' ?pp"
    | (none) "\<not> contains ''/map/transaction/'' ?pp" "\<not> contains ''/map/user/'' ?pp"
        "\<not> contains ''/map/insurance/'' ?pp"
    by blast
  then show ?thesis
  proof cases
    case tx
    with assms j have
      "bindE (parse_map_json F j ''transaction'' (JStr (country_or_india country)) (str_col s)
                (int_col y) (int_col q) (JStr p))
         (insert_rows W ''map_map'' (t, sunk)) = Inr (t', sunk')"
      by (simp add: process_map_def Let_def)
    from extract_and_insert[OF this parse_map_json_country] show ?thesis
      by (auto simp: tables_def)
  next
    case user
    with assms j have
      "bindE (parse_map_json F j ''user'' (JStr (country_or_india country)) (str_col s)
                (int_col y) (int_col q) (JStr p))
         (insert_rows W ''map_user'' (t, sunk)) = Inr (t', sunk')"
      by (simp add: process_map_def Let_def)
    from extract_and_insert[OF this parse_map_json_country] show ?thesis
      by (auto simp: tables_def)
  next
    case ins
    with assms j have
      "bindE (parse_map_json F j ''insurance'' (JStr (country_or_india country)) (str_col s)
                (int_col y) (int_col q) (JStr p))
         (insert_rows W ''map_insurance'' (t, sunk)) = Inr (t', sunk')"
      by (simp add: process_map_def Let_def)
    from extract_and_insert[OF this parse_map_json_country] show ?thesis
      by (auto simp: tables_def)
  next
    case none
    with assms j show ?thesis
      by (simp add: process_map_def Let_def)
  qed
qed

lemma process_top_step:
  assumes "process_top F W p (t, sunk) = Inr (t', sunk')"
    and "parse_path_context p = Inr (country, s, d, y, q)"
  shows "sunk' = sunk \<or>
         (\<exists>table rows. table \<in> set tables \<and> sunk' = sunk @ [(table, rows)] \<and>
            (\<forall>r\<in>set rows. row_country r = Some (JStr (country_or_india country))))"
proof -
  let ?pp = "replace [CHR 0x5C] ''/'' p"
  from assms obtain j where j: "snd (load_json W p) = Inr j"
    by (auto simp: process_top_def bindE_eq_Inr)
  consider (tx) "contains ''/top/transaction/'' ?pp"
    | (user) "\<not> contains ''/top/transaction/'' ?pp" "contains ''/top/user/'' ?pp"
    | (ins) "\<not> contains ''/top/transaction/'' ?pp" "\<not> contains ''/top/user/'' ?pp"
        "contains ''/top/insurance/'' ?pp"
    | (none) "\<not> contains ''/top/transaction/'' ?pp" "\<not> contains ''/top/user/'' ?pp"
        "\<not> contains ''/top/insurance/'' ?pp"
    by blast
  then show ?thesis
  proof cases
    case tx
    with assms j have
      "bindE (parse_top_json F j ''transaction'' (JStr (country_or_india country)) (str_col s)
                (int_col y) (int_col q) (JStr p))
         (insert_rows W ''top_map'' (t, sunk)) = Inr (t', sunk')"
      by (simp add: process_top_def Let_def)
    from extract_and_insert[OF this parse_top_json_country] show ?thesis
      by (auto simp: tables_def)
  next
    case user
    with assms j have
      "bindE (parse_top_json F j ''user'' (JStr (country_or_india country)) (str_col s)
                (int_col y) (int_col q) (JStr p))
         (insert_rows W ''top_user'' (t, sunk)) = Inr (t', sunk')"
      by (simp add: process_top_def Let_def)
    from extract_and_insert[OF this parse_top_json_country] show ?thesis
      by (auto simp: tables_def)
  next
    case ins
    with assms j have
      "bindE (parse_top_json F j ''insurance'' (JStr (country_or_india country)) (str_col s)
                (int_col y) (int_col q) (JStr p))
         (insert_rows W ''top_insurance'' (t, sunk)) = Inr (t', sunk')"
      by (simp add: process_top_def Let_def)
    from extract_and_insert[OF this parse_top_json_country] show ?thesis
      by (auto simp: tables_def)
  next
    case none
    with assms j show ?thesis
      by (simp add: process_top_def Let_def)
  qed
qed

text \<open>The invariant of the three loops.\<close>

lemma step_keeps_batches_ok:
  assumes "sunk' = sunk \<or>
           (\<exists>table rows. table \<in> set tables \<and> sunk' = sunk @ [(table, rows)] \<and>
              (\<forall>r\<in>set rows. row_country r = Some (JStr (country_or_india country))))"
    and "list_all batch_ok sunk"
  shows "list_all batch_ok sunk'"
  using assms by (auto simp: batch_ok_def)

lemma process_aggregated_ok:
  assumes "process_aggregated F W p st = Inr st'" and "list_all batch_ok (snd st)"
  shows "list_all batch_ok (snd st')"
proof -
  obtain c s y q where "parse_path_context p = Inr (c, s, None, y, q)"
    using parse_path_context_total by blast
  with assms show ?thesis
    using process_aggregated_step[of F W p "fst st" "snd st" "fst st'" "snd st'" c s None y q]
      step_keeps_batches_ok[of "snd st'" "snd st" c]
    by simp
qed

lemma process_map_ok:
  assumes "process_map F W p st = Inr st'" and "list_all batch_ok (snd st)"
  shows "list_all batch_ok (snd st')"
proof -
  obtain c s y q where "parse_path_context p = Inr (c, s, None, y, q)"
    using parse_path_context_total by blast
  with assms show ?thesis
    using process_map_step[of F W p "fst st" "snd st" "fst st'" "snd st'" c s None y q]
      step_keeps_batches_ok[of "snd st'" "snd st" c]
    by simp
qed

lemma process_top_ok:
  assumes "process_top F W p st = Inr st'" and "list_all batch_ok (snd st)"
  shows "list_all batch_ok (snd st')"
proof -
  obtain c s y q where "parse_path_context p = Inr (c, s, None, y, q)"
    using parse_path_context_total by blast
  with assms show ?thesis
    using process_top_step[of F W p "fst st" "snd st" "fst st'" "snd st'" c s None y q]
      step_keeps_batches_ok[of "snd st'" "snd st" c]
    by simp
qed

lemma for_files_invariant:
  assumes "\<And>p s s'. body p s = Inr s' \<Longrightarrow> I s \<Longrightarrow> I s'"
    and "I s"
  shows "I (fst (for_files body ps s))"
  using assms(2)
proof (induction ps arbitrary: s)
  case Nil
  then show ?case by simp
next
  case (Cons p ps)
  then show ?case
    using assms(1) by (cases "body p s") auto
qed

lemma process_and_load_ok: "list_all batch_ok (snd (fst (process_and_load F W files)))"
proof -
  obtain fa fm ft where files: "files = (fa, fm, ft)"
    by (cases files) auto
  let ?I = "\<lambda>st :: 'a run_state. list_all batch_ok (snd st)"
  let ?r1 = "for_files (process_aggregated F W) fa (0, [])"
  let ?r2 = "for_files (process_map F W) fm (fst ?r1)"
  let ?r3 = "for_files (process_top F W) ft (fst ?r2)"
  have 1: "?I (fst ?r1)"
    by (rule for_files_invariant[where I = ?I]) (auto intro: process_aggregated_ok)
  have 2: "?I (fst ?r2)"
    by (rule for_files_invariant[where I = ?I]) (auto intro: process_map_ok 1)
  have 3: "?I (fst ?r3)"
    by (rule for_files_invariant[where I = ?I]) (auto intro: process_top_ok 2)
  show ?thesis
    using 1 2 3
    by (cases ?r1; cases ?r2) (auto simp: files process_and_load_def split: option.splits)
qed

section \<open>Evaluating the resolver and the loader on concrete files\<close>

lemma context_of_map_path:
  "parse_path_context map_path = Inr (None, None, None, Some 2022, Some 1)"
  unfolding map_path_def by code_simp

lemma context_of_good_path:
  "parse_path_context good_path = Inr (Some ''india'', None, None, Some 2022, Some 2)"
  unfolding good_path_def by code_simp

lemma load_map_file:
  "process_and_load exact_ops map_file_world ([], [map_path], []) =
     ((1, [(''map_user'',
            [header (JStr map_path) (JStr ''india'') JNull (JStr ''pune'') (JInt 2022) (JInt 1) @
             [(''registered_users'', JInt 5), (''app_opens'', JInt 3)]])]), None)"
  by code_simp

lemma load_good_file:
  "process_and_load exact_ops broken_file_world ([good_path], [], []) =
     ((1, [(''aggregated_user'',
            [header (JStr good_path) (JStr ''india'') JNull JNull (JInt 2022) (JInt 2) @
             [(''registered_users'', JInt 500), (''app_opens'', JInt 0),
              (''active_users'', JNull)]])]), None)"
  by code_simp

lemma load_bad_then_good_file:
  "process_and_load exact_ops broken_file_world ([bad_path, good_path], [], []) =
     ((0, []), Some ReadError)"
  by code_simp

text \<open>
  C10. Whatever the files hold and whatever the sink does, every batch a run hands to the
  sink goes to one of the nine tables and every row of it holds a non-empty string in its
  \<^verbatim>\<open>country\<close> column. When the resolver gives no country for a file, the rows that the
  loop body of any of the three categories writes for it hold \<^verbatim>\<open>'india'\<close>.
\<close>

theorem every_sunk_row_has_country:
  "list_all batch_ok (snd (fst (process_and_load F W files))) \<and>
   (parse_path_context p = Inr (None, s, d, y, q) \<and>
    (process_aggregated F W p (t, sunk) = Inr (t', sunk') \<or>
     process_map F W p (t, sunk) = Inr (t', sunk') \<or>
     process_top F W p (t, sunk) = Inr (t', sunk'))
    \<longrightarrow> sunk' = sunk \<or>
        (\<exists>table rows. table \<in> set tables \<and> sunk' = sunk @ [(table, rows)] \<and>
           (\<forall>r\<in>set rows. row_country r = Some (JStr ''india''))))"
proof (intro conjI impI)
  show "list_all batch_ok (snd (fst (process_and_load F W files)))"
    by (rule process_and_load_ok)
next
  assume a: "parse_path_context p = Inr (None, s, d, y, q) \<and>
             (process_aggregated F W p (t, sunk) = Inr (t', sunk') \<or>
              process_map F W p (t, sunk) = Inr (t', sunk') \<or>
              process_top F W p (t, sunk) = Inr (t', sunk'))"
  then have ctx: "parse_path_context p = Inr (None, s, d, y, q)" by simp
  from a consider "process_aggregated F W p (t, sunk) = Inr (t', sunk')"
    | "process_map F W p (t, sunk) = Inr (t', sunk')"
    | "process_top F W p (t, sunk) = Inr (t', sunk')"
    by blast
  then show "sunk' = sunk \<or>
        (\<exists>table rows. table \<in> set tables \<and> sunk' = sunk @ [(table, rows)] \<and>
           (\<forall>r\<in>set rows. row_country r = Some (JStr ''india'')))"
  proof cases
    case 1
    from process_aggregated_step[OF 1 ctx] show ?thesis by simp
  next
    case 2
    from process_map_step[OF 2 ctx] show ?thesis by simp
  next
    case 3
    from process_top_step[OF 3 ctx] show ?thesis by simp
  qed
qed

theorem every_sunk_row_has_country_witness:
  "parse_path_context map_path = Inr (None, None, None, Some 2022, Some 1) \<and>
   process_map exact_ops map_file_world map_path (0, []) =
     Inr (1, [(''map_user'',
               [header (JStr map_path) (JStr ''india'') JNull (JStr ''pune'') (JInt 2022) (JInt 1) @
                [(''registered_users'', JInt 5), (''app_opens'', JInt 3)]])]) \<and>
   list_all batch_ok
     (snd (fst (process_and_load exact_ops map_file_world ([], [map_path], [])))) \<and>
   snd (fst (process_and_load exact_ops map_file_world ([], [map_path], []))) =
     [(''map_user'',
       [header (JStr map_path) (JStr ''india'') JNull (JStr ''pune'') (JInt 2022) (JInt 1) @
        [(''registered_users'', JInt 5), (''app_opens'', JInt 3)]])]"
proof -
  have step: "process_map exact_ops map_file_world map_path (0, []) =
     Inr (1, [(''map_user'',
               [header (JStr map_path) (JStr ''india'') JNull (JStr ''pune'') (JInt 2022) (JInt 1) @
                [(''registered_users'', JInt 5), (''app_opens'', JInt 3)]])])"
    by code_simp
  show ?thesis
    using every_sunk_row_has_country
      [of exact_ops map_file_world "([], [map_path], [])" map_path None None "Some 2022" "Some 1"
          0 "[]" 1
          "[(''map_user'',
             [header (JStr map_path) (JStr ''india'') JNull (JStr ''pune'') (JInt 2022) (JInt 1) @
              [(''registered_users'', JInt 5), (''app_opens'', JInt 3)]])]"]
      context_of_map_path step load_map_file
    by simp
qed

section \<open>A file that cannot be read\<close>

text \<open>
  C1, as the code has it. When the first attempt (utf-8) on a file fails, the loader makes
  exactly one more attempt, under latin-1, and goes on with what it gives. When that
  attempt fails too, nothing catches the exception: the loop ends at this file with the
  state as it was before it, no later file is processed, and the run ends with the
  exception.
\<close>

theorem retry_once_then_abort:
  assumes "read_utf8 W p = Inl e"
  shows "load_json W p = ([''utf-8'', ''latin-1''], read_latin1 W p) \<and>
         (read_latin1 W p = Inl e' \<longrightarrow>
            for_files (process_aggregated F W) (p # ps) st = (st, Some e') \<and>
            for_files (process_map F W) (p # ps) st = (st, Some e') \<and>
            for_files (process_top F W) (p # ps) st = (st, Some e') \<and>
            process_and_load F W (p # ps, fm, ft) = ((0, []), Some e'))"
proof (intro conjI impI)
  show l: "load_json W p = ([''utf-8'', ''latin-1''], read_latin1 W p)"
    using assms by (simp add: load_json_def)
  assume r: "read_latin1 W p = Inl e'"
  show a: "for_files (process_aggregated F W) (p # ps) st = (st, Some e')"
    using l r by (simp add: process_aggregated_def)
  show "for_files (process_map F W) (p # ps) st = (st, Some e')"
    using l r by (simp add: process_map_def)
  show "for_files (process_top F W) (p # ps) st = (st, Some e')"
    using l r by (simp add: process_top_def)
  have "for_files (process_aggregated F W) (p # ps) (0, []) = ((0, []), Some e')"
    using l r by (simp add: process_aggregated_def)
  then show "process_and_load F W (p # ps, fm, ft) = ((0, []), Some e')"
    by (simp add: process_and_load_def)
qed

theorem retry_once_then_abort_witness:
  "read_utf8 broken_file_world bad_path = Inl ReadError \<and>
   read_latin1 broken_file_world bad_path = Inl ReadError \<and>
   load_json broken_file_world bad_path = ([''utf-8'', ''latin-1''], Inl ReadError) \<and>
   process_and_load exact_ops broken_file_world ([bad_path, good_path], [], []) =
     ((0, []), Some ReadError)"
  using retry_once_then_abort
    [of broken_file_world bad_path ReadError ReadError exact_ops "[good_path]" "(0, [])" "[]" "[]"]
  by (simp add: broken_file_world_def)

text \<open>
  The claim as stated fails when both attempts fail: the run ends with the exception, and
  the file after it, which on its own gives a row, is never loaded.
\<close>

theorem second_failure_aborts_counterexample:
  "process_and_load exact_ops broken_file_world ([bad_path, good_path], [], []) =
     ((0, []), Some ReadError) \<and>
   process_and_load exact_ops broken_file_world ([good_path], [], []) =
     ((1, [(''aggregated_user'',
            [header (JStr good_path) (JStr ''india'') JNull JNull (JInt 2022) (JInt 2) @
             [(''registered_users'', JInt 500), (''app_opens'', JInt 0),
              (''active_users'', JNull)]])]), None)"
  using load_bad_then_good_file load_good_file by simp

section \<open>Reading the segments of a path\<close>

lemma index_of_first: "x \<notin> set pre \<Longrightarrow> index_of x (pre @ x # ys) = Inr (length pre)"
  by (induction pre) auto

lemma tail_of_parts_data:
  "''data'' \<notin> set pre \<Longrightarrow> tail_of_parts (pre @ ''data'' # tail) = Inr tail"
  by (simp add: tail_of_parts_def index_of_first)

lemma py_index_last: "xs \<noteq> [] \<Longrightarrow> py_index xs (- 1) = Inr (last xs)"
  by (simp add: py_index_def last_conv_nth nat_diff_distrib' Suc_leI)

lemma py_index_before_last:
  "2 \<le> length xs \<Longrightarrow> py_index xs (- 2) = Inr (xs ! (length xs - 2))"
  by (simp add: py_index_def nat_diff_distrib')

lemma py_index_nat:
  "py_index xs (int i + 1) = (if Suc i < length xs then Inr (xs ! Suc i) else Inl IndexError)"
  by (simp add: py_index_def nat_add_distrib)

lemma decimal_isdigit: "decimal s \<Longrightarrow> isdigit s"
  by (auto simp: decimal_def isdigit_def list_all_iff)

lemma digit_not_space: "is_ascii_digit c \<Longrightarrow> \<not> is_space c"
  by (auto simp: is_ascii_digit_def is_space_def)

lemma strip_digits: "list_all is_ascii_digit s \<Longrightarrow> strip s = s"
proof -
  assume d: "list_all is_ascii_digit s"
  have "dropWhile is_space xs = xs" if "list_all is_ascii_digit xs" for xs
    using that by (cases xs) (simp_all add: digit_not_space)
  from this[of s] this[of "rev s"] d show ?thesis
    by (simp add: strip_def list_all_iff)
qed

lemma digits_after_digits: "list_all is_ascii_digit s \<Longrightarrow> digits_after s = Some s"
  by (induction s rule: digits_after.induct) simp_all

lemma digit_not_sign: "is_ascii_digit c \<Longrightarrow> c \<noteq> CHR ''-'' \<and> c \<noteq> CHR ''+''"
  by (auto simp: is_ascii_digit_def)

lemma int_of_str_decimal:
  assumes "decimal s"
  shows "int_of_str s = Inr (digits_value s)"
proof -
  from assms obtain c cs where s: "s = c # cs" and c: "is_ascii_digit c"
    and all: "list_all is_ascii_digit s" and len: "length s \<le> max_str_digits"
    by (cases s) (auto simp: decimal_def)
  have nd: "numeral_digits s = Some s"
    using digits_after_digits[OF all] s c by (simp add: numeral_digits_def)
  have sign: "take 1 s \<noteq> ''-''" "take 1 s \<noteq> ''+''"
    using s digit_not_sign[OF c] by simp_all
  show ?thesis
    unfolding int_of_str_def strip_digits[OF all] Let_def
    using nd sign len by simp
qed

lemma number_of_decimal: "decimal s \<Longrightarrow> number_of s = Some (digits_value s)"
  by (simp add: number_of_def decimal_isdigit)

lemma set_year_plain:
  assumes "2 \<le> length tail" and "plain (tail ! (length tail - 2))"
  shows "set_year tail (c, s, y, q) =
           Inr (c, s, (case number_of (tail ! (length tail - 2)) of
                         Some n \<Rightarrow> Some n | None \<Rightarrow> y), q)"
  using assms
  by (simp add: set_year_def py_index_before_last plain_def number_of_def int_of_str_decimal)

lemma set_quarter_plain:
  assumes "tail \<noteq> []" and "plain (path_stem (last tail))"
  shows "set_quarter tail (c, s, y, q) =
           Inr (c, s, y, (case number_of (path_stem (last tail)) of
                            Some n \<Rightarrow> Some n | None \<Rightarrow> q))"
  using assms
  by (simp add: set_quarter_def py_index_last plain_def number_of_def int_of_str_decimal Let_def)

lemma index_of_following:
  "m \<in> set xs \<Longrightarrow>
   \<exists>i. index_of m xs = Inr i \<and> i < length xs \<and>
       following m xs = (if Suc i < length xs then Some (xs ! Suc i) else None)"
proof (induction m xs rule: following.induct)
  case (1 m)
  then show ?case by simp
next
  case (2 m x)
  then show ?case by simp
next
  case (3 m x y zs)
  show ?case
  proof (cases "x = m")
    case True
    then show ?thesis by simp
  next
    case False
    with 3 obtain i where "index_of m (y # zs) = Inr i" "i < length (y # zs)"
      "following m (y # zs) = (if Suc i < length (y # zs) then Some ((y # zs) ! Suc i) else None)"
      by auto
    with False show ?thesis by auto
  qed
qed

lemma set_marker_following:
  assumes "m \<in> set tail"
  shows "set_state m tail (c, s, y, q) =
           (case following m tail of
              Some x \<Rightarrow> Inr (c, Some x, y, q) | None \<Rightarrow> Inl IndexError)"
    and "m = ''country'' \<Longrightarrow>
         set_country tail (c, s, y, q) =
           (case following m tail of
              Some x \<Rightarrow> Inr (Some x, s, y, q) | None \<Rightarrow> Inl IndexError)"
  using index_of_following[OF assms]
  by (auto simp: set_state_def set_country_def py_index_nat)

lemma following_None_notin: "m \<notin> set xs \<Longrightarrow> following m xs = None"
  by (induction m xs rule: following.induct) auto

lemma run_try_3:
  "run_try [a, b, c] v =
     (case a v of
        Inl e \<Rightarrow> v
      | Inr v1 \<Rightarrow> (case b v1 of
                    Inl e \<Rightarrow> v1
                  | Inr v2 \<Rightarrow> (case c v2 of Inl e \<Rightarrow> v2 | Inr v3 \<Rightarrow> v3)))"
  by (simp split: sum.splits)

lemma run_try_2:
  "run_try [a, b] v =
     (case a v of
        Inl e \<Rightarrow> v
      | Inr v1 \<Rightarrow> (case b v1 of Inl e \<Rightarrow> v1 | Inr v2 \<Rightarrow> v2))"
  by (simp split: sum.splits)

lemma run_try_1: "run_try [a] v = (case a v of Inl e \<Rightarrow> v | Inr v1 \<Rightarrow> v1)"
  by (simp split: sum.splits)

text \<open>The block of a marker in an aggregated path, on plain segments.\<close>

lemma country_block:
  assumes "''country'' \<in> set tail" and "2 \<le> length tail"
    and "plain (tail ! (length tail - 2))" and "plain (path_stem (last tail))"
  shows "run_try [set_country tail, set_year tail, set_quarter tail] (None, None, None, None) =
           (case following ''country'' tail of
              Some x \<Rightarrow> (Some x, None, number_of (tail ! (length tail - 2)),
                          number_of (path_stem (last tail)))
            | None \<Rightarrow> (None, None, None, None))"
proof -
  have ne: "tail \<noteq> []" using assms(2) by auto
  show ?thesis
    unfolding run_try_3
    by (simp add: set_marker_following(2)[OF assms(1)] set_year_plain[OF assms(2,3)]
        set_quarter_plain[OF ne assms(4)] split: option.splits)
qed

lemma state_block:
  assumes "''state'' \<in> set tail" and "2 \<le> length tail"
    and "plain (tail ! (length tail - 2))" and "plain (path_stem (last tail))"
  shows "run_try [set_state ''state'' tail, set_year tail, set_quarter tail] (c, None, y, q) =
           (case following ''state'' tail of
              Some x \<Rightarrow> (c, Some x,
                          (case number_of (tail ! (length tail - 2)) of
                             Some n \<Rightarrow> Some n | None \<Rightarrow> y),
                          (case number_of (path_stem (last tail)) of
                             Some n \<Rightarrow> Some n | None \<Rightarrow> q))
            | None \<Rightarrow> (c, None, y, q))"
proof -
  have ne: "tail \<noteq> []" using assms(2) by auto
  show ?thesis
    unfolding run_try_3
    by (simp add: set_marker_following(1)[OF assms(1)] set_year_plain[OF assms(2,3)]
        set_quarter_plain[OF ne assms(4)] split: option.splits)
qed

lemma aggregated_context:
  assumes t: "tail_of_parts parts = Inr tail" and len: "4 \<le> length tail"
    and agg: "hd tail = ''aggregated''"
    and marker: "following ''country'' tail \<noteq> None \<or> following ''state'' tail \<noteq> None"
    and py: "plain (tail ! (length tail - 2))" and pq: "plain (path_stem (last tail))"
  shows "context_of_parts parts =
           Inr (following ''country'' tail,
                map_option (replace ''%20'' '' '') (following ''state'' tail), None,
                number_of (tail ! (length tail - 2)), number_of (path_stem (last tail)))"
proof -
  have l2: "2 \<le> length tail" and ne: "tail \<noteq> []" using len by auto
  let ?v0 = "(None, None, None, None) :: path_vars"
  let ?yv = "number_of (tail ! (length tail - 2))"
  let ?qv = "number_of (path_stem (last tail))"
  define v1 where "v1 = (if ''country'' \<in> set tail
                         then run_try [set_country tail, set_year tail, set_quarter tail] ?v0
                         else ?v0)"
  define v2 where "v2 = (if ''state'' \<in> set tail
                         then run_try [set_state ''state'' tail, set_year tail,
                                       set_quarter tail] v1
                         else v1)"
  have v1: "v1 = (case following ''country'' tail of
                    Some x \<Rightarrow> (Some x, None, ?yv, ?qv) | None \<Rightarrow> ?v0)"
    unfolding v1_def
    by (simp add: country_block[OF _ l2 py pq] following_None_notin del: run_try.simps)
  have v2: "v2 = (following ''country'' tail, following ''state'' tail, ?yv, ?qv)"
  proof (cases "following ''country'' tail")
    case None
    then obtain x where x: "following ''state'' tail = Some x"
      using marker by auto
    then have "''state'' \<in> set tail"
      using following_None_notin by fastforce
    then show ?thesis
      unfolding v2_def v1 None
      by (simp add: state_block[OF _ l2 py pq] x del: run_try.simps split: option.splits)
  next
    case (Some c)
    show ?thesis
    proof (cases "''state'' \<in> set tail")
      case True
      then show ?thesis
        unfolding v2_def v1 Some
        by (simp add: state_block[OF _ l2 py pq] del: run_try.simps split: option.splits)
    next
      case False
      then show ?thesis
        unfolding v2_def v1 Some
        by (simp add: following_None_notin)
    qed
  qed
  have "context_of_parts parts =
          bindE (Inr v2) (\<lambda>(country, state, year, quarter).
            Inr (country, map_option (replace ''%20'' '' '') state, None, year, quarter))"
    unfolding context_of_parts_def v2_def v1_def
    using t len agg by (simp add: py_index_0[OF ne] Let_def)
  then show ?thesis
    by (simp add: v2)
qed

text \<open>
  A map or top path: year and quarter are read when the path holds both a \<^verbatim>\<open>country\<close> and
  an \<^verbatim>\<open>india\<close> segment; the state is read in a block of its own.
\<close>

lemma year_quarter_block_keeps:
  "\<exists>y' q'. run_try [set_year tail, set_quarter tail] (c, s, y, q) = (c, s, y', q')"
  unfolding run_try_2
  by (auto simp: set_year_def set_quarter_def bindE_eq_Inr Let_def
      split: sum.splits if_splits)

lemma year_quarter_block:
  assumes "2 \<le> length tail"
    and "plain (tail ! (length tail - 2))" and "plain (path_stem (last tail))"
  shows "run_try [set_year tail, set_quarter tail] (None, None, None, None) =
           (None, None, number_of (tail ! (length tail - 2)), number_of (path_stem (last tail)))"
proof -
  have ne: "tail \<noteq> []" using assms(1) by auto
  show ?thesis
    unfolding run_try_2
    by (simp add: set_year_plain[OF assms(1,2)] set_quarter_plain[OF ne assms(3)]
        split: option.splits)
qed

lemma state_wise_block:
  "run_try [set_state ''state-wise'' tail] (c, None, y, q) =
     (c, following ''state-wise'' tail, y, q)"
proof (cases "''state-wise'' \<in> set tail")
  case True
  show ?thesis
    unfolding run_try_1
    by (simp add: set_marker_following(1)[OF True] split: option.splits)
next
  case False
  then have "index_of ''state-wise'' tail = Inl ValueError"
    by (induction tail) auto
  then show ?thesis
    unfolding run_try_1 using False
    by (simp add: set_state_def following_None_notin)
qed

lemma other_context_state:
  assumes t: "tail_of_parts parts = Inr tail" and len: "4 \<le> length tail"
    and other: "hd tail \<noteq> ''aggregated''"
  shows "\<exists>y q. context_of_parts parts =
           Inr (None, map_option (replace ''%20'' '' '') (following ''state-wise'' tail),
                None, y, q)"
proof -
  have ne: "tail \<noteq> []" using len by auto
  let ?v0 = "(None, None, None, None) :: path_vars"
  define v1 where "v1 = (if ''country'' \<in> set tail \<and> ''india'' \<in> set tail
                         then run_try [set_year tail, set_quarter tail] ?v0 else ?v0)"
  have "\<exists>y q. v1 = (None, None, y, q)"
  proof (cases "''country'' \<in> set tail \<and> ''india'' \<in> set tail")
    case True
    then show ?thesis
      unfolding v1_def using year_quarter_block_keeps[of tail None None None None]
      by (simp del: run_try.simps)
  next
    case False
    then show ?thesis
      unfolding v1_def by auto
  qed
  then obtain y q where v1: "v1 = (None, None, y, q)"
    by blast
  define v2 where "v2 = (if ''state-wise'' \<in> set tail
                         then run_try [set_state ''state-wise'' tail] v1 else v1)"
  have v2: "v2 = (None, following ''state-wise'' tail, y, q)"
    unfolding v2_def v1 by (simp add: state_wise_block following_None_notin del: run_try.simps)
  have "context_of_parts parts =
          bindE (Inr v2) (\<lambda>(country, state, year, quarter).
            Inr (country, map_option (replace ''%20'' '' '') state, None, year, quarter))"
    unfolding context_of_parts_def v2_def v1_def
    using t len other by (simp add: py_index_0[OF ne] Let_def)
  then show ?thesis
    by (auto simp: v2)
qed

lemma other_context:
  assumes t: "tail_of_parts parts = Inr tail" and len: "4 \<le> length tail"
    and other: "hd tail \<noteq> ''aggregated''"
    and py: "plain (tail ! (length tail - 2))" and pq: "plain (path_stem (last tail))"
  shows "context_of_parts parts =
           Inr (None, map_option (replace ''%20'' '' '') (following ''state-wise'' tail), None,
                (if ''country'' \<in> set tail \<and> ''india'' \<in> set tail
                 then number_of (tail ! (length tail - 2)) else None),
                (if ''country'' \<in> set tail \<and> ''india'' \<in> set tail
                 then number_of (path_stem (last tail)) else None))"
proof -
  have l2: "2 \<le> length tail" and ne: "tail \<noteq> []" using len by auto
  let ?v0 = "(None, None, None, None) :: path_vars"
  define v1 where "v1 = (if ''country'' \<in> set tail \<and> ''india'' \<in> set tail
                         then run_try [set_year tail, set_quarter tail] ?v0 else ?v0)"
  define v2 where "v2 = (if ''state-wise'' \<in> set tail
                         then run_try [set_state ''state-wise'' tail] v1 else v1)"
  have v1: "v1 = (None, None,
                  (if ''country'' \<in> set tail \<and> ''india'' \<in> set tail
                   then number_of (tail ! (length tail - 2)) else None),
                  (if ''country'' \<in> set tail \<and> ''india'' \<in> set tail
                   then number_of (path_stem (last tail)) else None))"
    unfolding v1_def by (simp add: year_quarter_block[OF l2 py pq] del: run_try.simps)
  have v2: "v2 = (None, following ''state-wise'' tail,
                  (if ''country'' \<in> set tail \<and> ''india'' \<in> set tail
                   then number_of (tail ! (length tail - 2)) else None),
                  (if ''country'' \<in> set tail \<and> ''india'' \<in> set tail
                   then number_of (path_stem (last tail)) else None))"
    unfolding v2_def v1 by (simp add: state_wise_block following_None_notin del: run_try.simps)
  have "context_of_parts parts =
          bindE (Inr v2) (\<lambda>(country, state, year, quarter).
            Inr (country, map_option (replace ''%20'' '' '') state, None, year, quarter))"
    unfolding context_of_parts_def v2_def v1_def
    using t len other by (simp add: py_index_0[OF ne] Let_def)
  then show ?thesis
    by (simp add: v2)
qed

section \<open>Decoding of the state name\<close>

declare replace.simps [simp del]

lemma replace_Nil [simp]: "replace old new [] = []"
  by (subst replace.simps) simp

lemma replace_hit:
  "replace ''%20'' '' '' (CHR ''%'' # CHR ''2'' # CHR ''0'' # s) = CHR '' '' # replace ''%20'' '' '' s"
  by (subst replace.simps) simp

lemma replace_miss:
  assumes "\<not> prefix ''%20'' (c # s)"
  shows "replace ''%20'' '' '' (c # s) = c # replace ''%20'' '' '' s"
proof -
  have ne: "\<not> (''%20'' = [] \<or> c # s = [])"
    by simp
  show ?thesis
    by (subst replace.simps) (simp only: ne assms if_False list.sel)
qed

lemma prefix_pct20:
  "prefix ''%20'' s \<longleftrightarrow> (\<exists>s'. s = CHR ''%'' # CHR ''2'' # CHR ''0'' # s')"
  by (auto simp: prefix_def)

lemma replace_head:
  assumes "replace ''%20'' '' '' s = x # r" and "x \<noteq> CHR '' ''"
  shows "\<exists>s'. s = x # s' \<and> r = replace ''%20'' '' '' s'"
proof (cases s)
  case Nil
  with assms show ?thesis by simp
next
  case (Cons c cs)
  show ?thesis
  proof (cases "prefix ''%20'' s")
    case True
    then obtain s' where "s = CHR ''%'' # CHR ''2'' # CHR ''0'' # s'"
      by (auto simp: prefix_pct20)
    with assms show ?thesis by (simp add: replace_hit)
  next
    case False
    with assms Cons show ?thesis by (simp add: replace_miss)
  qed
qed

lemma not_prefix_replace:
  assumes "\<not> prefix ''%20'' (c # cs)"
  shows "\<not> prefix ''%20'' (c # replace ''%20'' '' '' cs)"
proof
  assume "prefix ''%20'' (c # replace ''%20'' '' '' cs)"
  then obtain r where "c # replace ''%20'' '' '' cs = ''%20'' @ r"
    by (auto simp: prefix_def)
  then have c: "c = CHR ''%''" and r: "replace ''%20'' '' '' cs = CHR ''2'' # CHR ''0'' # r"
    by simp_all
  from replace_head[OF r] obtain cs1 where
    cs: "cs = CHR ''2'' # cs1" and r1: "replace ''%20'' '' '' cs1 = CHR ''0'' # r"
    by auto
  from replace_head[OF r1] obtain cs2 where "cs1 = CHR ''0'' # cs2"
    by auto
  with c cs assms show False
    by (simp add: prefix_pct20)
qed

lemma replace_leaves_no_pct20: "\<not> contains ''%20'' (replace ''%20'' '' '' s)"
proof (induction "length s" arbitrary: s rule: less_induct)
  case less
  show ?case
  proof (cases s)
    case Nil
    then show ?thesis by simp
  next
    case (Cons c cs)
    show ?thesis
    proof (cases "prefix ''%20'' s")
      case True
      then obtain s' where s': "s = CHR ''%'' # CHR ''2'' # CHR ''0'' # s'"
        by (auto simp: prefix_pct20)
      then have "\<not> contains ''%20'' (replace ''%20'' '' '' s')"
        using less[of s'] by simp
      then show ?thesis
        by (simp add: s' replace_hit)
    next
      case False
      have "\<not> contains ''%20'' (replace ''%20'' '' '' cs)"
        using less[of cs] Cons by simp
      moreover have "\<not> prefix ''%20'' (c # replace ''%20'' '' '' cs)"
        using False Cons not_prefix_replace by simp
      ultimately show ?thesis
        using False Cons by (simp add: replace_miss)
    qed
  qed
qed

lemma replace_unchanged:
  "\<not> contains ''%20'' s \<Longrightarrow> replace ''%20'' '' '' s = s"
proof (induction s)
  case Nil
  then show ?case by simp
next
  case (Cons c cs)
  then have "\<not> prefix ''%20'' (c # cs)" and "\<not> contains ''%20'' cs"
    by simp_all
  with Cons.IH show ?case
    by (simp add: replace_miss)
qed

lemma replace_splits:
  "replace ''%20'' '' '' (u @ ''%20'' @ v) =
     replace ''%20'' '' '' u @ '' '' @ replace ''%20'' '' '' v"
proof (induction "length u" arbitrary: u rule: less_induct)
  case less
  show ?case
  proof (cases u)
    case Nil
    then show ?thesis by (simp add: replace_hit)
  next
    case (Cons c cs)
    show ?thesis
    proof (cases "prefix ''%20'' u")
      case True
      then obtain u' where u': "u = CHR ''%'' # CHR ''2'' # CHR ''0'' # u'"
        by (auto simp: prefix_pct20)
      with less[of u'] show ?thesis
        by (simp add: replace_hit)
    next
      case False
      have "\<not> prefix ''%20'' (u @ ''%20'' @ v)"
      proof
        assume "prefix ''%20'' (u @ ''%20'' @ v)"
        then obtain w where w: "u @ ''%20'' @ v = CHR ''%'' # CHR ''2'' # CHR ''0'' # w"
          by (auto simp: prefix_pct20)
        show False
        proof (cases cs)
          case Nil
          with w Cons show False by simp
        next
          case (Cons d ds)
          note cs = this
          show False
          proof (cases ds)
            case Nil
            with w cs \<open>u = c # cs\<close> show False by simp
          next
            case (Cons e es)
            with w cs \<open>u = c # cs\<close> have "u = CHR ''%'' # CHR ''2'' # CHR ''0'' # es"
              by simp
            with False show False by (simp add: prefix_pct20)
          qed
        qed
      qed
      then have "replace ''%20'' '' '' (u @ ''%20'' @ v) =
                   c # replace ''%20'' '' '' (cs @ ''%20'' @ v)"
        using Cons by (simp add: replace_miss)
      also have "\<dots> = c # (replace ''%20'' '' '' cs @ '' '' @ replace ''%20'' '' '' v)"
        using less[of cs] Cons by simp
      also have "\<dots> = replace ''%20'' '' '' u @ '' '' @ replace ''%20'' '' '' v"
        using False Cons by (simp add: replace_miss)
      finally show ?thesis .
    qed
  qed
qed

section \<open>What the resolver returns\<close>

lemma rfind_dot_None: "CHR ''.'' \<notin> set s \<Longrightarrow> rfind_dot s = None"
  by (induction s) auto

lemma rfind_dot_append:
  "CHR ''.'' \<notin> set ys \<Longrightarrow> rfind_dot (xs @ CHR ''.'' # ys) = Some (length xs)"
  by (induction xs) (simp_all add: rfind_dot_None)

lemma path_stem_json: "q \<noteq> [] \<Longrightarrow> path_stem (q @ ''.json'') = q"
  using rfind_dot_append[of "''json''" q] by (simp add: path_stem_def)

lemma decimal_plain: "decimal s \<Longrightarrow> plain s"
  by (simp add: plain_def)

lemma decimal_not_state: "decimal s \<Longrightarrow> s \<noteq> ''state''"
  by (auto simp: decimal_def is_ascii_digit_def)

lemma following_butlast: "following m xs = None \<longleftrightarrow> m \<notin> set (butlast xs)"
  by (induction m xs rule: following.induct) auto

lemma marker_fails:
  assumes "following m tail = None"
  shows "\<exists>e. set_state m tail v = Inl e"
    and "m = ''country'' \<Longrightarrow> \<exists>e. set_country tail v = Inl e"
proof -
  obtain c s y q where v: "v = (c, s, y, q)"
    by (cases v) auto
  show "\<exists>e. set_state m tail v = Inl e"
  proof (cases "m \<in> set tail")
    case True
    from set_marker_following(1)[OF True, of c s y q] assms v show ?thesis by simp
  next
    case False
    then have "index_of m tail = Inl ValueError" by (induction tail) auto
    then show ?thesis by (simp add: set_state_def v)
  qed
  show "\<exists>e. set_country tail v = Inl e" if m: "m = ''country''"
  proof (cases "m \<in> set tail")
    case True
    from set_marker_following(2)[OF True m, of c s y q] assms v show ?thesis by simp
  next
    case False
    then have "index_of ''country'' tail = Inl ValueError" using m by (induction tail) auto
    then show ?thesis by (simp add: set_country_def v)
  qed
qed

lemma aggregated_no_marker:
  assumes t: "tail_of_parts parts = Inr tail" and len: "4 \<le> length tail"
    and agg: "hd tail = ''aggregated''"
    and c: "following ''country'' tail = None" and s: "following ''state'' tail = None"
  shows "context_of_parts parts = Inr (None, None, None, None, None)"
proof -
  have ne: "tail \<noteq> []" using len by auto
  let ?v0 = "(None, None, None, None) :: path_vars"
  obtain e1 where e1: "set_country tail ?v0 = Inl e1"
    using marker_fails(2)[OF c] by blast
  obtain e2 where e2: "set_state ''state'' tail ?v0 = Inl e2"
    using marker_fails(1)[OF s] by blast
  show ?thesis
    unfolding context_of_parts_def
    using t len agg by (simp add: py_index_0[OF ne] Let_def e1 e2)
qed

lemma short_context:
  assumes "tail_of_parts parts = Inr tail" and "length tail < 4"
  shows "context_of_parts parts = Inr (None, None, None, None, None)"
  using assms by (simp add: context_of_parts_def)

text \<open>
  C8, as the code has it. The parts of the path are any segments without a \<^verbatim>\<open>data\<close>
  segment, then \<^verbatim>\<open>data\<close> (the first such segment of the path), \<^verbatim>\<open>aggregated\<close>, one of the
  three kinds, \<^verbatim>\<open>country\<close>, \<^verbatim>\<open>india\<close>, a decimal year and a decimal quarter with the
  extension \<^verbatim>\<open>.json\<close>. Then the resolver returns the country \<^verbatim>\<open>india\<close> (the segment after the
  marker), no state, no district, and the year and the quarter as numbers.
\<close>

theorem aggregated_country_path_context:
  assumes "path_parts p =
             pre @ [''data'', ''aggregated'', kind, ''country'', ''india'', yr, qt @ ''.json'']"
    and "''data'' \<notin> set pre"
    and "kind \<in> {''transaction'', ''user'', ''insurance''}"
    and "decimal yr" and "decimal qt"
  shows "parse_path_context p =
           Inr (Some ''india'', None, None, Some (digits_value yr), Some (digits_value qt))"
proof -
  let ?tail = "[''aggregated'', kind, ''country'', ''india'', yr, qt @ ''.json'']"
  have qt: "qt \<noteq> []" using assms(5) by (auto simp: decimal_def)
  have t: "tail_of_parts (path_parts p) = Inr ?tail"
    using assms(1,2) tail_of_parts_data[of pre ?tail] by simp
  have c: "following ''country'' ?tail = Some ''india''"
    using assms(3) by auto
  have s: "following ''state'' ?tail = None"
    using assms(3) decimal_not_state[OF assms(4)] by auto
  have y: "?tail ! (length ?tail - 2) = yr" and l: "last ?tail = qt @ ''.json''"
    by simp_all
  have "context_of_parts (path_parts p) =
          Inr (following ''country'' ?tail,
               map_option (replace ''%20'' '' '') (following ''state'' ?tail), None,
               number_of (?tail ! (length ?tail - 2)), number_of (path_stem (last ?tail)))"
    using c assms(4,5)
    by (intro aggregated_context[OF t]) (simp_all add: path_stem_json[OF qt] decimal_plain)
  then have "context_of_parts (path_parts p) =
               Inr (Some ''india'', None, None, number_of yr, number_of qt)"
    unfolding c s y l path_stem_json[OF qt] by simp
  then show ?thesis
    using assms(4,5) by (simp add: parse_path_context_def number_of_decimal)
qed

lemma parts_of_india_path:
  "path_parts india_path =
     [''/'', ''repo''] @
     [''data'', ''aggregated'', ''transaction'', ''country'', ''india'', ''2022'', ''1'' @ ''.json'']"
  by code_simp

lemma digits_2022: "decimal ''2022'' \<and> digits_value ''2022'' = 2022"
  by code_simp

lemma digits_1: "decimal ''1'' \<and> digits_value ''1'' = 1"
  by code_simp

theorem aggregated_country_path_context_witness:
  "parse_path_context india_path = Inr (Some ''india'', None, None, Some 2022, Some 1)"
  using aggregated_country_path_context
    [of india_path "[''/'', ''repo'']" "''transaction''" "''2022''" "''1''"]
    parts_of_india_path digits_2022 digits_1
  by simp

text \<open>
  The claim as stated fails on a path that has a \<^verbatim>\<open>data\<close> segment before the one the tree
  hangs from: the segments after its last \<^verbatim>\<open>data\<close> segment are as the claim asks, and the
  resolver, which cuts at the first, returns no country.
\<close>

theorem two_data_segments_counterexample:
  "path_parts two_data_path =
     [''/'', ''data'', ''pulse''] @
     [''data'', ''aggregated'', ''transaction'', ''country'', ''india'', ''2022'', ''1.json''] \<and>
   parse_path_context two_data_path = Inr (None, None, None, Some 2022, Some 1)"
  by code_simp

text \<open>
  C9, as the code has it. In a path whose tail has at least four segments and does not
  start with \<^verbatim>\<open>aggregated\<close>, the state the resolver returns is the segment that follows
  the first \<^verbatim>\<open>state-wise\<close> segment, with \<^verbatim>\<open>%20\<close> replaced by a space, and null when no segment
  follows it, which is when the marker does not occur before the last segment. The
  replacement leaves no \<^verbatim>\<open>%20\<close>, puts one space for each occurrence between the decoded
  parts before and after it, and returns a name without \<^verbatim>\<open>%20\<close> as it is.
\<close>

theorem state_wise_path_state:
  assumes "tail_of_parts (path_parts p) = Inr tail"
    and "4 \<le> length tail"
    and "hd tail \<noteq> ''aggregated''"
  shows "(\<exists>y q. parse_path_context p =
                  Inr (None, map_option (replace ''%20'' '' '') (following ''state-wise'' tail),
                       None, y, q)) \<and>
         (following ''state-wise'' tail = None \<longleftrightarrow> ''state-wise'' \<notin> set (butlast tail)) \<and>
         \<not> contains ''%20'' (replace ''%20'' '' '' st) \<and>
         replace ''%20'' '' '' (u @ ''%20'' @ v) =
           replace ''%20'' '' '' u @ '' '' @ replace ''%20'' '' '' v \<and>
         (\<not> contains ''%20'' st \<longrightarrow> replace ''%20'' '' '' st = st)"
proof (intro conjI)
  show "\<exists>y q. parse_path_context p =
                 Inr (None, map_option (replace ''%20'' '' '') (following ''state-wise'' tail),
                      None, y, q)"
    using other_context_state[OF assms] by (simp add: parse_path_context_def)
  show "following ''state-wise'' tail = None \<longleftrightarrow> ''state-wise'' \<notin> set (butlast tail)"
    by (rule following_butlast)
  show "\<not> contains ''%20'' (replace ''%20'' '' '' st)"
    by (rule replace_leaves_no_pct20)
  show "replace ''%20'' '' '' (u @ ''%20'' @ v) =
          replace ''%20'' '' '' u @ '' '' @ replace ''%20'' '' '' v"
    by (rule replace_splits)
  show "\<not> contains ''%20'' st \<longrightarrow> replace ''%20'' '' '' st = st"
    using replace_unchanged by blast
qed

lemma tail_of_karnataka_path:
  "tail_of_parts (path_parts karnataka_path) =
     Inr [''top'', ''user'', ''state-wise'', ''Karnataka'', ''2022'', ''q1.json'']"
  by code_simp

lemma tail_of_andaman_path:
  "tail_of_parts (path_parts andaman_path) =
     Inr [''map'', ''transaction'', ''country'', ''india'', ''state-wise'',
          ''andaman%20&%20nicobar'', ''2021'', ''4.json'']"
  by code_simp

lemma decode_andaman: "replace ''%20'' '' '' ''andaman%20&%20nicobar'' = ''andaman & nicobar''"
  by code_simp

lemma decode_karnataka: "replace ''%20'' '' '' ''Karnataka'' = ''Karnataka''"
  by code_simp

theorem state_wise_path_state_witness:
  "(\<exists>y q. parse_path_context karnataka_path = Inr (None, Some ''Karnataka'', None, y, q)) \<and>
   (\<exists>y q. parse_path_context andaman_path = Inr (None, Some ''andaman & nicobar'', None, y, q))"
  using state_wise_path_state
    [of karnataka_path "[''top'', ''user'', ''state-wise'', ''Karnataka'', ''2022'', ''q1.json'']"]
    state_wise_path_state
    [of andaman_path
        "[''map'', ''transaction'', ''country'', ''india'', ''state-wise'',
          ''andaman%20&%20nicobar'', ''2021'', ''4.json'']"]
    tail_of_karnataka_path tail_of_andaman_path decode_andaman decode_karnataka
  by simp

text \<open>
  The claim as stated fails on a map path whose \<^verbatim>\<open>state-wise\<close> marker is the last segment:
  the tail has four segments, does not start with \<^verbatim>\<open>aggregated\<close> and holds the marker, and
  the resolver returns no state.
\<close>

theorem state_wise_last_counterexample:
  "tail_of_parts (path_parts state_wise_last_path) =
     Inr [''map'', ''transaction'', ''2022'', ''state-wise''] \<and>
   parse_path_context state_wise_last_path = Inr (None, None, None, None, None)"
  by code_simp

text \<open>
  C4, as the code has it. The resolver returns a tuple for every path string. Let the tail
  be the segments after the first \<^verbatim>\<open>data\<close> segment, and let the segment before the last and
  the stem of the last be plain. With at least four segments in the tail, every signal is
  read on its own in an aggregated path where a segment follows a \<^verbatim>\<open>country\<close> or a \<^verbatim>\<open>state\<close>
  marker, and in every map or top path: the country and the state are the segments after
  their markers (null without one), the year and the quarter are the numbers of their
  segments (null when these are not numeric, or, for a map or top path, when the path
  lacks a \<^verbatim>\<open>country\<close> or an \<^verbatim>\<open>india\<close> segment). In an aggregated path where no segment follows
  either marker, all signals are null, whatever the year and quarter segments are; so they
  are when the tail has fewer than four segments.
\<close>

theorem resolver_total_signals:
  "(\<exists>c s y q. parse_path_context p = Inr (c, s, None, y, q)) \<and>
   (tail_of_parts (path_parts p) = Inr tail \<and> 4 \<le> length tail \<and>
    plain (tail ! (length tail - 2)) \<and> plain (path_stem (last tail)) \<longrightarrow>
      (hd tail = ''aggregated'' \<and>
       (following ''country'' tail \<noteq> None \<or> following ''state'' tail \<noteq> None) \<longrightarrow>
         parse_path_context p =
           Inr (following ''country'' tail,
                map_option (replace ''%20'' '' '') (following ''state'' tail), None,
                number_of (tail ! (length tail - 2)), number_of (path_stem (last tail)))) \<and>
      (hd tail \<noteq> ''aggregated'' \<longrightarrow>
         parse_path_context p =
           Inr (None, map_option (replace ''%20'' '' '') (following ''state-wise'' tail), None,
                (if ''country'' \<in> set tail \<and> ''india'' \<in> set tail
                 then number_of (tail ! (length tail - 2)) else None),
                (if ''country'' \<in> set tail \<and> ''india'' \<in> set tail
                 then number_of (path_stem (last tail)) else None)))) \<and>
   (tail_of_parts (path_parts p) = Inr tail \<and> 4 \<le> length tail \<and> hd tail = ''aggregated'' \<and>
    following ''country'' tail = None \<and> following ''state'' tail = None \<longrightarrow>
      parse_path_context p = Inr (None, None, None, None, None)) \<and>
   (tail_of_parts (path_parts p) = Inr tail \<and> length tail < 4 \<longrightarrow>
      parse_path_context p = Inr (None, None, None, None, None))"
  unfolding parse_path_context_def
  using context_of_parts_total[of "path_parts p"]
    aggregated_context[of "path_parts p" tail] other_context[of "path_parts p" tail]
    aggregated_no_marker[of "path_parts p" tail] short_context[of "path_parts p" tail]
  by blast

lemma tamil_nadu_facts:
  "tail_of_parts (path_parts tamil_nadu_path) =
     Inr [''aggregated'', ''user'', ''country'', ''india'', ''state'', ''tamil%20nadu'', ''20x2'',
          ''3.json''] \<and>
   plain ''20x2'' \<and> plain (path_stem ''3.json'') \<and>
   following ''country''
     [''aggregated'', ''user'', ''country'', ''india'', ''state'', ''tamil%20nadu'', ''20x2'',
      ''3.json''] = Some ''india'' \<and>
   following ''state''
     [''aggregated'', ''user'', ''country'', ''india'', ''state'', ''tamil%20nadu'', ''20x2'',
      ''3.json''] = Some ''tamil%20nadu'' \<and>
   replace ''%20'' '' '' ''tamil%20nadu'' = ''tamil nadu'' \<and>
   number_of ''20x2'' = None \<and> number_of (path_stem ''3.json'') = Some 3"
  by code_simp

lemma marker_last_facts:
  "tail_of_parts (path_parts marker_last_path) =
     Inr [''aggregated'', ''transaction'', ''2022'', ''state''] \<and>
   following ''country'' [''aggregated'', ''transaction'', ''2022'', ''state''] = None \<and>
   following ''state'' [''aggregated'', ''transaction'', ''2022'', ''state''] = None \<and>
   number_of ''2022'' = Some 2022"
  by code_simp

lemma map_path_facts:
  "tail_of_parts (path_parts map_path) =
     Inr [''map'', ''user'', ''hover'', ''country'', ''india'', ''2022'', ''1.json''] \<and>
   plain ''2022'' \<and> plain (path_stem ''1.json'') \<and>
   following ''state-wise'' [''map'', ''user'', ''hover'', ''country'', ''india'', ''2022'', ''1.json'']
     = None \<and>
   number_of ''2022'' = Some 2022 \<and> number_of (path_stem ''1.json'') = Some 1"
  by code_simp

lemma short_path_facts: "tail_of_parts (path_parts ''pulse/data/map'') = Inr [''map'']"
  by code_simp

theorem resolver_total_signals_witness:
  "parse_path_context tamil_nadu_path =
     Inr (Some ''india'', Some ''tamil nadu'', None, None, Some 3) \<and>
   parse_path_context map_path = Inr (None, None, None, Some 2022, Some 1) \<and>
   parse_path_context marker_last_path = Inr (None, None, None, None, None) \<and>
   parse_path_context ''pulse/data/map'' = Inr (None, None, None, None, None)"
  using resolver_total_signals
    [of tamil_nadu_path
        "[''aggregated'', ''user'', ''country'', ''india'', ''state'', ''tamil%20nadu'', ''20x2'',
          ''3.json'']"]
    resolver_total_signals
    [of map_path "[''map'', ''user'', ''hover'', ''country'', ''india'', ''2022'', ''1.json'']"]
    resolver_total_signals
    [of marker_last_path "[''aggregated'', ''transaction'', ''2022'', ''state'']"]
    resolver_total_signals [of "''pulse/data/map''" "[''map'']"]
    tamil_nadu_facts map_path_facts marker_last_facts short_path_facts
  by simp

text \<open>
  The claim as stated fails in two ways. On a path whose \<^verbatim>\<open>state\<close> marker is the last
  segment, the lookup of the state fails and the year is lost with it, though its segment
  \<^verbatim>\<open>2022\<close> reads as a number. On a path whose year segment is a superscript two, which
  \<^verbatim>\<open>isdigit\<close> accepts and \<^verbatim>\<open>int\<close> rejects, the quarter is lost with the year, though the stem
  \<^verbatim>\<open>1\<close> reads as a number.
\<close>

theorem lost_signals_counterexample:
  "parse_path_context marker_last_path = Inr (None, None, None, None, None) \<and>
   number_of ''2022'' = Some 2022 \<and>
   parse_path_context superscript_year_path = Inr (Some ''india'', None, None, None, None) \<and>
   number_of (path_stem ''1.json'') = Some 1"
  by code_simp

end
